theory Spec2Isabelle
  imports Main "HOL-Library.Multiset" "HOL-Library.Log_Nat"
begin

section \<open>Data model\<close>

text \<open>
  The four relations of the migration script and the row types of
  \<^verbatim>\<open>src/integrations/supabase/types.ts\<close>. A UUID is the string the client sees.
  Money is \<^verbatim>\<open>DECIMAL(10, 2)\<close> in the store: an amount is counted here in centavos,
  and is less than \<open>10 ^ 10\<close> centavos in absolute value. A row that the client holds
  is written with the amounts it was read from; what the client computes with them is
  computed on JavaScript numbers (section below). The columns \<^verbatim>\<open>created_at\<close> and \<^verbatim>\<open>data_pagamento\<close>
  and the generated key of a history row play no part in any handler and are left out.
\<close>

type_synonym uuid = string
type_synonym money = int

record Pessoa =
  p_id :: uuid
  nome :: string
  funcao :: string

record Trabalho =
  t_id :: uuid
  pessoa_id :: uuid
  descricao :: string
  valor_total :: money
  valor_pago :: money
  concluido :: bool
  prioridade :: int

record PagamentoSemanal =
  ps_id :: uuid
  trabalho_id :: uuid
  pessoa_nome :: string
  pessoa_funcao :: string
  descricao_trabalho :: string
  valor :: money
  posicao :: int

text \<open>
  A history row as the client sends it: \<^verbatim>\<open>pessoa_id\<close> may be \<^verbatim>\<open>undefined\<close>
  (the older approval loop reads it through \<^verbatim>\<open>data?.pessoa_id\<close>).
\<close>

record HistoricoPagamento =
  h_pessoa_id :: "uuid option"
  h_trabalho_id :: uuid
  h_pessoa_nome :: string
  h_pessoa_funcao :: string
  h_descricao_trabalho :: string
  h_valor :: money

record Database =
  pessoas :: "Pessoa list"
  trabalhos :: "Trabalho list"
  pagamentos_semanais :: "PagamentoSemanal list"
  historico_pagamentos :: "HistoricoPagamento list"

datatype toast = ToastSuccess string | ToastError string | ToastInfo string

text \<open>
  The state the handlers act on: the store, the React state of the two pages
  (\<^verbatim>\<open>slots\<close>, \<^verbatim>\<open>loading\<close>, \<^verbatim>\<open>approving\<close> of the dashboard; the list
  \<^verbatim>\<open>trabalhos\<close> of the queue page, here \<open>fila\<close>), the toasts shown so far, and
  \<open>outages\<close>: for each coming request to the store, whether it will fail
  (\<open>True\<close>); past the end of the list every request succeeds.
\<close>

record World =
  db :: Database
  outages :: "bool list"
  slots :: "PagamentoSemanal option list"
  loading :: bool
  approving :: bool
  fila :: "Trabalho list"
  toasts :: "toast list"

section \<open>Numbers of the client\<close>

text \<open>
  A JavaScript number is a binary64 double. Doubles are rationals; the amounts here are
  far from the ends of the exponent range, so a double is a rational with a
  significand of 53 bits. \<open>to_double\<close> rounds a rational to the nearest such number,
  ties to even: it is what reading a decimal (\<^verbatim>\<open>Number("100.10")\<close>, a JSON number) and
  what every arithmetic operation does to its exact result.
\<close>

type_synonym number = rat

definition rne :: "rat \<Rightarrow> int" where
  "rne y =
     (let f = \<lfloor>y\<rfloor>; r = y - of_int f
      in if r < 1 / 2 then f else if r > 1 / 2 then f + 1 else if even f then f else f + 1)"

text \<open>For \<open>q > 0\<close>, the exponent \<open>e\<close> with \<open>2 ^ e \<le> q < 2 ^ (e + 1)\<close>.\<close>

definition expo :: "rat \<Rightarrow> int" where
  "expo q = (if 1 \<le> q then bitlen \<lfloor>q\<rfloor> - 1 else - bitlen (\<lceil>1 / q\<rceil> - 1))"

definition to_double :: "rat \<Rightarrow> number" where
  "to_double q =
     (if q = 0 then 0
      else (let ulp = 2 powi (expo \<bar>q\<bar> - 52)
            in sgn q * of_int (rne (\<bar>q\<bar> / ulp)) * ulp))"

text \<open>The number the client holds for a stored amount: \<^verbatim>\<open>Number(trabalho.valor_pago)\<close>.\<close>

definition js_number :: "money \<Rightarrow> number" where
  "js_number c = to_double (of_int c / 100)"

text \<open>\<^verbatim>\<open>a + b\<close> on numbers.\<close>

definition js_add :: "number \<Rightarrow> number \<Rightarrow> number" where
  "js_add a b = to_double (a + b)"

text \<open>
  The amount a \<^verbatim>\<open>DECIMAL(10, 2)\<close> column keeps of a number sent to it: the store
  rounds to two decimals, halves away from zero. (The client sends the shortest digits
  that read back as the same double; they are taken here for the double itself.)
\<close>

definition stored :: "number \<Rightarrow> money" where
  "stored x = (if 0 \<le> x then round (100 * x) else - round (100 * (- x)))"

section \<open>Requests to the store\<close>

text \<open>
  A call of the Supabase client does not throw: it resolves to a response whose
  \<^verbatim>\<open>error\<close> field is set when the request failed. A failed request leaves the
  tables as they were.
\<close>

definition available :: "World \<Rightarrow> bool" where
  "available w = (case outages w of [] \<Rightarrow> True | f # _ \<Rightarrow> \<not> f)"

definition tick :: "World \<Rightarrow> World" where
  "tick w = w\<lparr>outages := tl (outages w)\<rparr>"

definition notify :: "toast \<Rightarrow> World \<Rightarrow> World" where
  "notify t w = w\<lparr>toasts := toasts w @ [t]\<rparr>"

text \<open>
  \<^verbatim>\<open>from("pagamentos_semanais").select("*").order("posicao", { ascending: true })\<close>.
  Rows with the same position come in stored order here; the store promises no order
  among them.
\<close>

definition select_pagamentos :: "World \<Rightarrow> PagamentoSemanal list option \<times> World" where
  "select_pagamentos w =
     (if available w then (Some (sort_key posicao (pagamentos_semanais (db w))), tick w)
      else (None, tick w))"

text \<open>\<^verbatim>\<open>from("pagamentos_semanais").delete().eq("id", id)\<close>; the flag is the error.\<close>

definition delete_pagamento :: "uuid \<Rightarrow> World \<Rightarrow> bool \<times> World" where
  "delete_pagamento k w =
     (if available w
      then (False, tick (w\<lparr>db := (db w)\<lparr>pagamentos_semanais :=
              filter (\<lambda>s. ps_id s \<noteq> k) (pagamentos_semanais (db w))\<rparr>\<rparr>))
      else (True, tick w))"

section \<open>Dashboard: loading and removing slots\<close>

text \<open>The body of the \<^verbatim>\<open>forEach\<close> of \<^verbatim>\<open>loadSlots\<close>.\<close>

definition place :: "PagamentoSemanal option list \<Rightarrow> PagamentoSemanal \<Rightarrow> PagamentoSemanal option list" where
  "place newSlots item =
     (if posicao item \<ge> 0 \<and> posicao item < 10
      then newSlots[nat (posicao item) := Some item]
      else newSlots)"

definition build_board :: "PagamentoSemanal list \<Rightarrow> PagamentoSemanal option list" where
  "build_board data = foldl place (replicate 10 None) data"

definition loadSlots :: "World \<Rightarrow> World" where
  "loadSlots w =
     (case select_pagamentos w of
        (None, w1) \<Rightarrow> (notify (ToastError ''Erro ao carregar pagamentos'') w1)\<lparr>loading := False\<rparr>
      | (Some data, w1) \<Rightarrow> w1\<lparr>slots := build_board data, loading := False\<rparr>)"

definition handleRemove :: "uuid \<Rightarrow> World \<Rightarrow> World" where
  "handleRemove k w =
     (case delete_pagamento k w of
        (True, w1) \<Rightarrow> notify (ToastError ''Erro ao remover slot'') w1
      | (False, w1) \<Rightarrow> notify (ToastSuccess ''Slot removido!'') (loadSlots w1))"

section \<open>More requests to the store\<close>

text \<open>\<^verbatim>\<open>.single()\<close>: data only when exactly one row matches.\<close>

definition single :: "'a list \<Rightarrow> 'a option" where
  "single rows = (case rows of [r] \<Rightarrow> Some r | _ \<Rightarrow> None)"

text \<open>\<^verbatim>\<open>from("trabalhos").select(...).eq("id", k).single()\<close>\<close>

definition select_trabalho :: "uuid \<Rightarrow> World \<Rightarrow> Trabalho option \<times> World" where
  "select_trabalho k w =
     (if available w then (single (filter (\<lambda>t. t_id t = k) (trabalhos (db w))), tick w)
      else (None, tick w))"

text \<open>
  \<^verbatim>\<open>from("historico_pagamentos").insert(row)\<close>. The column \<^verbatim>\<open>pessoa_id\<close> is
  \<^verbatim>\<open>NOT NULL\<close>, so a row without it is refused. The foreign keys of the row are
  those of a work item just read from a store that keeps its foreign keys, and are not
  checked again; the amount of the row is that of a slot the client read, which it
  passes on as it is (\<open>stored_js_number\<close> below).
\<close>

definition insert_historico :: "HistoricoPagamento \<Rightarrow> World \<Rightarrow> bool \<times> World" where
  "insert_historico row w =
     (if available w \<and> h_pessoa_id row \<noteq> None
      then (False, tick (w\<lparr>db := (db w)\<lparr>historico_pagamentos :=
              historico_pagamentos (db w) @ [row]\<rparr>\<rparr>))
      else (True, tick w))"

text \<open>
  \<^verbatim>\<open>from("trabalhos").update({ valor_pago, concluido }).eq("id", k)\<close>. The number
  sent is rounded to the column's two decimals; a value outside the range of
  \<^verbatim>\<open>DECIMAL(10, 2)\<close> is refused.
\<close>

definition update_trabalho :: "uuid \<Rightarrow> number \<Rightarrow> bool \<Rightarrow> World \<Rightarrow> bool \<times> World" where
  "update_trabalho k novoValorPago concl w =
     (if available w \<and> \<bar>stored novoValorPago\<bar> < 10 ^ 10
      then (False, tick (w\<lparr>db := (db w)\<lparr>trabalhos :=
              map (\<lambda>t. if t_id t = k
                       then t\<lparr>valor_pago := stored novoValorPago, concluido := concl\<rparr> else t)
                (trabalhos (db w))\<rparr>\<rparr>))
      else (True, tick w))"

text \<open>
  \<^verbatim>\<open>from("pagamentos_semanais").delete().neq("id", "00000000-0000-0000-0000-000000000000")\<close>
\<close>

definition delete_all_pagamentos :: "World \<Rightarrow> bool \<times> World" where
  "delete_all_pagamentos w =
     (if available w
      then (False, tick (w\<lparr>db := (db w)\<lparr>pagamentos_semanais :=
              filter (\<lambda>s. \<not> (ps_id s \<noteq> ''00000000-0000-0000-0000-000000000000''))
                (pagamentos_semanais (db w))\<rparr>\<rparr>))
      else (True, tick w))"

text \<open>
  A row as an upsert sends it: the key, and the other columns when the caller gives
  them (the \<^verbatim>\<open>Insert\<close> types of \<^verbatim>\<open>types.ts\<close>, with the check that
  \<^verbatim>\<open>@ts-ignore\<close> silences left to the store).
\<close>

record PagamentoSemanalUpsert =
  su_id :: uuid
  su_trabalho_id :: "uuid option"
  su_pessoa_nome :: "string option"
  su_pessoa_funcao :: "string option"
  su_descricao_trabalho :: "string option"
  su_valor :: "money option"
  su_posicao :: "int option"

record TrabalhoUpsert =
  tu_id :: uuid
  tu_pessoa_id :: "uuid option"
  tu_descricao :: "string option"
  tu_valor_total :: "money option"
  tu_valor_pago :: "money option"
  tu_concluido :: "bool option"
  tu_prioridade :: "int option"

text \<open>
  \<^verbatim>\<open>from("pagamentos_semanais").upsert(updates)\<close> is one statement,
  \<^verbatim>\<open>INSERT ... ON CONFLICT (id) DO UPDATE\<close>. The store checks the proposed row
  against the \<^verbatim>\<open>NOT NULL\<close> columns of the migration before it looks for a conflict
  on the key: a row that leaves out a mandatory column without default is refused, and
  with it the whole statement, whether or not a row with that key is stored.
\<close>

definition slot_complete :: "PagamentoSemanalUpsert \<Rightarrow> bool" where
  "slot_complete u =
     (su_trabalho_id u \<noteq> None \<and> su_pessoa_nome u \<noteq> None \<and> su_pessoa_funcao u \<noteq> None \<and>
      su_descricao_trabalho u \<noteq> None \<and> su_valor u \<noteq> None \<and> su_posicao u \<noteq> None)"

definition slot_of :: "PagamentoSemanalUpsert \<Rightarrow> PagamentoSemanal" where
  "slot_of u =
     \<lparr>ps_id = su_id u, trabalho_id = the (su_trabalho_id u), pessoa_nome = the (su_pessoa_nome u),
      pessoa_funcao = the (su_pessoa_funcao u),
      descricao_trabalho = the (su_descricao_trabalho u), valor = the (su_valor u),
      posicao = the (su_posicao u)\<rparr>"

definition put_slot :: "PagamentoSemanalUpsert \<Rightarrow> PagamentoSemanal list \<Rightarrow> PagamentoSemanal list" where
  "put_slot u rows =
     (if list_ex (\<lambda>s. ps_id s = su_id u) rows
      then map (\<lambda>s. if ps_id s = su_id u then slot_of u else s) rows
      else rows @ [slot_of u])"

definition upsert_pagamentos :: "PagamentoSemanalUpsert list \<Rightarrow> World \<Rightarrow> bool \<times> World" where
  "upsert_pagamentos updates w =
     (if available w \<and> list_all slot_complete updates
      then (False, tick (w\<lparr>db := (db w)\<lparr>pagamentos_semanais :=
              fold put_slot updates (pagamentos_semanais (db w))\<rparr>\<rparr>))
      else (True, tick w))"

text \<open>
  \<^verbatim>\<open>from("trabalhos").upsert(updates)\<close>, the same statement on the work items, whose
  mandatory columns without default are \<^verbatim>\<open>pessoa_id\<close>, \<^verbatim>\<open>descricao\<close> and
  \<^verbatim>\<open>valor_total\<close>. An accepted row sets the columns it gives on the stored row with
  its key, or becomes a new row with the defaults of the migration.
\<close>

definition trabalho_complete :: "TrabalhoUpsert \<Rightarrow> bool" where
  "trabalho_complete u =
     (tu_pessoa_id u \<noteq> None \<and> tu_descricao u \<noteq> None \<and> tu_valor_total u \<noteq> None)"

definition merge_trabalho :: "TrabalhoUpsert \<Rightarrow> Trabalho \<Rightarrow> Trabalho" where
  "merge_trabalho u t =
     \<lparr>t_id = tu_id u, pessoa_id = the (tu_pessoa_id u), descricao = the (tu_descricao u),
      valor_total = the (tu_valor_total u),
      valor_pago = (case tu_valor_pago u of None \<Rightarrow> valor_pago t | Some v \<Rightarrow> v),
      concluido = (case tu_concluido u of None \<Rightarrow> concluido t | Some c \<Rightarrow> c),
      prioridade = (case tu_prioridade u of None \<Rightarrow> prioridade t | Some p \<Rightarrow> p)\<rparr>"

definition put_trabalho :: "TrabalhoUpsert \<Rightarrow> Trabalho list \<Rightarrow> Trabalho list" where
  "put_trabalho u rows =
     (if list_ex (\<lambda>t. t_id t = tu_id u) rows
      then map (\<lambda>t. if t_id t = tu_id u then merge_trabalho u t else t) rows
      else rows @ [merge_trabalho u
             \<lparr>t_id = tu_id u, pessoa_id = [], descricao = [], valor_total = 0, valor_pago = 0,
              concluido = False, prioridade = 0\<rparr>])"

definition upsert_trabalhos :: "TrabalhoUpsert list \<Rightarrow> World \<Rightarrow> bool \<times> World" where
  "upsert_trabalhos updates w =
     (if available w \<and> list_all trabalho_complete updates
      then (False, tick (w\<lparr>db := (db w)\<lparr>trabalhos :=
              fold put_trabalho updates (trabalhos (db w))\<rparr>\<rparr>))
      else (True, tick w))"

text \<open>
  The query of \<^verbatim>\<open>loadData\<close>:
  \<^verbatim>\<open>from("trabalhos").select(...).eq("concluido", false).order("prioridade", { ascending: true })\<close>.
  The names joined from \<^verbatim>\<open>pessoas\<close> are shown only and are left out.
\<close>

definition backlog :: "Database \<Rightarrow> Trabalho list" where
  "backlog d = sort_key prioridade (filter (\<lambda>t. \<not> concluido t) (trabalhos d))"

definition select_fila :: "World \<Rightarrow> Trabalho list option \<times> World" where
  "select_fila w = (if available w then (Some (backlog (db w)), tick w) else (None, tick w))"

definition select_pessoas :: "World \<Rightarrow> Pessoa list option \<times> World" where
  "select_pessoas w = (if available w then (Some (pessoas (db w)), tick w) else (None, tick w))"

section \<open>The stored procedures\<close>

text \<open>
  The three procedures called through \<^verbatim>\<open>supabase.rpc\<close> are not among the sources
  (the migration creates tables only). A procedure runs in one transaction: when it
  fails, the tables are as before.
\<close>

text \<open>
  Modelled from the spec: the procedure \<^verbatim>\<open>atualizar_valor_pago\<close> is missing. Section
  4.4, step 3: increase the work item's paid amount by the slot amount; if
  \<open>paid \<ge> total\<close>, mark it completed.
\<close>

definition credit :: "money \<Rightarrow> Trabalho \<Rightarrow> Trabalho" where
  "credit v t =
     (let novo = valor_pago t + v
      in t\<lparr>valor_pago := novo, concluido := (if novo \<ge> valor_total t then True else concluido t)\<rparr>)"

definition atualizar_valor_pago :: "uuid \<Rightarrow> money \<Rightarrow> World \<Rightarrow> bool \<times> World" where
  "atualizar_valor_pago p_trabalho_id p_valor_pago w =
     (if available w
      then (False, tick (w\<lparr>db := (db w)\<lparr>trabalhos :=
              map (\<lambda>t. if t_id t = p_trabalho_id then credit p_valor_pago t else t)
                (trabalhos (db w))\<rparr>\<rparr>))
      else (True, tick w))"

text \<open>
  Modelled from the spec: the procedure \<^verbatim>\<open>aprovar_pagamentos_semanais\<close> is missing.
  Section 4.4, bulk approval: it needs at least one occupied slot; for every occupied
  slot it does what manual settlement does (history entry, balance increase, completion
  check), then clears all slots; a slot that points at no work item aborts the whole
  unit, and on any failure nothing is recorded.
\<close>

definition history_row :: "uuid option \<Rightarrow> PagamentoSemanal \<Rightarrow> HistoricoPagamento" where
  "history_row pid slot =
     \<lparr>h_pessoa_id = pid, h_trabalho_id = trabalho_id slot, h_pessoa_nome = pessoa_nome slot,
      h_pessoa_funcao = pessoa_funcao slot, h_descricao_trabalho = descricao_trabalho slot,
      h_valor = valor slot\<rparr>"

fun settle_rows :: "PagamentoSemanal list \<Rightarrow> Database \<Rightarrow> Database option" where
  "settle_rows [] d = Some d"
| "settle_rows (slot # rest) d =
     (case single (filter (\<lambda>t. t_id t = trabalho_id slot) (trabalhos d)) of
        None \<Rightarrow> None
      | Some t \<Rightarrow>
          settle_rows rest
            (d\<lparr>historico_pagamentos :=
                 historico_pagamentos d @ [history_row (Some (pessoa_id t)) slot],
               trabalhos :=
                 map (\<lambda>t. if t_id t = trabalho_id slot then credit (valor slot) t else t)
                   (trabalhos d)\<rparr>))"

definition aprovar_pagamentos_semanais :: "World \<Rightarrow> bool \<times> World" where
  "aprovar_pagamentos_semanais w =
     (if available w \<and> pagamentos_semanais (db w) \<noteq> []
      then (case settle_rows (pagamentos_semanais (db w)) (db w) of
              None \<Rightarrow> (True, tick w)
            | Some d \<Rightarrow> (False, tick (w\<lparr>db := d\<lparr>pagamentos_semanais := []\<rparr>\<rparr>)))
      else (True, tick w))"

text \<open>
  Modelled from the spec: the procedure \<^verbatim>\<open>preencher_slots_pagamento\<close> is missing.
  Section 4.3: pull work items from the backlog, lowest rank first, and create a slot
  for each, until the board is full or the backlog is exhausted; the amount of a new
  slot is the item's remaining balance \<open>total - paid\<close>; an item already bound to a slot
  is not pulled again; the display fields are captured at fill time. Empty positions
  are filled from position 0 upwards. The keys of the new rows come from the store's
  generator, here the parameter \<open>gen_random_uuid\<close> (the \<open>i\<close>-th key it hands out).
\<close>

definition empty_positions :: "Database \<Rightarrow> int list" where
  "empty_positions d =
     filter (\<lambda>p. p \<notin> posicao ` set (pagamentos_semanais d)) (map int [0..<10])"

definition candidates :: "Database \<Rightarrow> Trabalho list" where
  "candidates d =
     filter (\<lambda>t. t_id t \<notin> trabalho_id ` set (pagamentos_semanais d)) (backlog d)"

definition new_slot :: "Database \<Rightarrow> uuid \<Rightarrow> int \<Rightarrow> Trabalho \<Rightarrow> PagamentoSemanal" where
  "new_slot d k p t =
     \<lparr>ps_id = k, trabalho_id = t_id t,
      pessoa_nome = (case find (\<lambda>q. p_id q = pessoa_id t) (pessoas d) of
                       None \<Rightarrow> [] | Some q \<Rightarrow> nome q),
      pessoa_funcao = (case find (\<lambda>q. p_id q = pessoa_id t) (pessoas d) of
                         None \<Rightarrow> [] | Some q \<Rightarrow> funcao q),
      descricao_trabalho = descricao t,
      valor = valor_total t - valor_pago t,
      posicao = p\<rparr>"

definition fill_rows :: "(nat \<Rightarrow> uuid) \<Rightarrow> Database \<Rightarrow> PagamentoSemanal list" where
  "fill_rows gen_random_uuid d =
     map (\<lambda>(i, p, t). new_slot d (gen_random_uuid i) p t)
       (enumerate 0 (zip (empty_positions d) (candidates d)))"

definition preencher_slots_pagamento :: "(nat \<Rightarrow> uuid) \<Rightarrow> World \<Rightarrow> bool \<times> World" where
  "preencher_slots_pagamento gen_random_uuid w =
     (if available w
      then (False, tick (w\<lparr>db := (db w)\<lparr>pagamentos_semanais :=
              pagamentos_semanais (db w) @ fill_rows gen_random_uuid (db w)\<rparr>\<rparr>))
      else (True, tick w))"

section \<open>Dashboard: the handlers\<close>

definition fillEmptySlots :: "(nat \<Rightarrow> uuid) \<Rightarrow> World \<Rightarrow> World" where
  "fillEmptySlots gen_random_uuid w =
     (case preencher_slots_pagamento gen_random_uuid w of
        (True, w1) \<Rightarrow> notify (ToastError ''Erro ao preencher slots automaticamente'') w1
      | (False, w1) \<Rightarrow> notify (ToastSuccess ''Slots preenchidos automaticamente!'') (loadSlots w1))"

text \<open>\<^verbatim>\<open>Array.prototype.findIndex\<close>; \<open>None\<close> stands for \<open>-1\<close>.\<close>

fun findIndex :: "('a \<Rightarrow> bool) \<Rightarrow> 'a list \<Rightarrow> nat option" where
  "findIndex P [] = None"
| "findIndex P (x # xs) = (if P x then Some 0 else map_option Suc (findIndex P xs))"

text \<open>
  \<^verbatim>\<open>arrayMove\<close> of the drag-and-drop library, for indices inside the array: a copy in
  which the element at \<open>fromIndex\<close> has been taken out and put back at \<open>toIndex\<close>.
\<close>

definition arrayMove :: "'a list \<Rightarrow> nat \<Rightarrow> nat \<Rightarrow> 'a list" where
  "arrayMove array fromIndex toIndex =
     (let rest = take fromIndex array @ drop (Suc fromIndex) array
      in take toIndex rest @ (array ! fromIndex) # drop toIndex rest)"

text \<open>\<^verbatim>\<open>(s) => s?.id === k\<close>\<close>

definition has_id :: "uuid \<Rightarrow> PagamentoSemanal option \<Rightarrow> bool" where
  "has_id k s = (case s of None \<Rightarrow> False | Some x \<Rightarrow> ps_id x = k)"

text \<open>
  \<^verbatim>\<open>reorderedSlots.map((slot, index) => ...).filter(Boolean)\<close>: for each occupied
  entry a row of \<^verbatim>\<open>id\<close> and \<^verbatim>\<open>posicao\<close> only.
\<close>

definition slot_updates :: "PagamentoSemanal option list \<Rightarrow> PagamentoSemanalUpsert list" where
  "slot_updates reorderedSlots =
     concat (map (\<lambda>(index, slot). case slot of
                    None \<Rightarrow> []
                  | Some x \<Rightarrow>
                      [\<lparr>su_id = ps_id x, su_trabalho_id = None, su_pessoa_nome = None,
                        su_pessoa_funcao = None, su_descricao_trabalho = None, su_valor = None,
                        su_posicao = Some (int index)\<rparr>])
       (enumerate 0 reorderedSlots))"

text \<open>
  \<^verbatim>\<open>handleDragEnd\<close> of the dashboard; \<open>active\<close> and \<open>over\<close> are the keys of the
  event (\<open>over\<close> may be missing).
\<close>

definition Dashboard_handleDragEnd :: "uuid \<Rightarrow> uuid option \<Rightarrow> World \<Rightarrow> World" where
  "Dashboard_handleDragEnd active over w =
     (case over of
        None \<Rightarrow> w
      | Some ov \<Rightarrow>
          if active = ov then w
          else (case (findIndex (has_id active) (slots w), findIndex (has_id ov) (slots w)) of
                  (Some oldIndex, Some newIndex) \<Rightarrow>
                    (let reorderedSlots = arrayMove (slots w) oldIndex newIndex;
                         w1 = w\<lparr>slots := reorderedSlots\<rparr>
                     in case upsert_pagamentos (slot_updates reorderedSlots) w1 of
                          (False, w2) \<Rightarrow> notify (ToastSuccess ''Ordem atualizada!'') w2
                        | (True, w2) \<Rightarrow> loadSlots (notify (ToastError ''Erro ao reordenar slots'') w2))
                | _ \<Rightarrow> w))"

text \<open>
  \<^verbatim>\<open>handlePayManually\<close>; \<open>confirmed\<close> is the answer to \<^verbatim>\<open>window.confirm\<close>. The
  response of the insert is not looked at. \<^verbatim>\<open>handleRemove\<close> catches its own error,
  so the success toast follows it in every case.
\<close>

definition handlePayManually :: "bool \<Rightarrow> PagamentoSemanal \<Rightarrow> World \<Rightarrow> World" where
  "handlePayManually confirmed slot w =
     (if \<not> confirmed then w
      else (case select_trabalho (trabalho_id slot) (w\<lparr>approving := True\<rparr>) of
              (None, w1) \<Rightarrow>
                (notify (ToastError ''Erro ao realizar pagamento manual.'') w1)\<lparr>approving := False\<rparr>
            | (Some trabalho, w1) \<Rightarrow>
                (let w2 = snd (insert_historico (history_row (Some (pessoa_id trabalho)) slot) w1)
                 in case atualizar_valor_pago (trabalho_id slot) (valor slot) w2 of
                      (True, w3) \<Rightarrow>
                        (notify (ToastError ''Erro ao realizar pagamento manual.'') w3)
                          \<lparr>approving := False\<rparr>
                    | (False, w3) \<Rightarrow>
                        (notify (ToastSuccess ''Pagamento manual realizado com sucesso!'')
                           (handleRemove (ps_id slot) w3))\<lparr>approving := False\<rparr>)))"

text \<open>\<^verbatim>\<open>slots.filter((s) => s !== null)\<close>\<close>

definition filled :: "PagamentoSemanal option list \<Rightarrow> PagamentoSemanal list" where
  "filled ss = concat (map (\<lambda>s. case s of None \<Rightarrow> [] | Some x \<Rightarrow> [x]) ss)"

text \<open>
  \<^verbatim>\<open>handleApprove\<close> as the component defines it (lines 259 to 284): the work is done
  by the stored procedure. The fill it schedules with \<^verbatim>\<open>setTimeout\<close> is a later
  event, \<open>fillEmptySlots\<close>.
\<close>

definition handleApprove :: "World \<Rightarrow> World" where
  "handleApprove w =
     (let w0 = w\<lparr>approving := True\<rparr>; filledSlots = filled (slots w0)
      in if length filledSlots = 0
         then (notify (ToastInfo ''Nenhum pagamento para aprovar.'') w0)\<lparr>approving := False\<rparr>
         else (case aprovar_pagamentos_semanais w0 of
                 (True, w1) \<Rightarrow>
                   (notify (ToastError ''Erro ao aprovar pagamentos'') w1)\<lparr>approving := False\<rparr>
               | (False, w1) \<Rightarrow>
                   (notify (ToastSuccess ''Pagamentos aprovados com sucesso!'') (loadSlots w1))
                     \<lparr>approving := False\<rparr>))"

text \<open>
  The second \<^verbatim>\<open>handleApprove\<close> of the file (lines 373 to 433), which settles the
  slots of the board one by one from the client. No response is looked at, so a failed
  request does not stop the loop. The new paid amount and the completion flag are
  computed on numbers: \<^verbatim>\<open>Number(trabalho.valor_pago) + Number(slot.valor)\<close> and
  \<^verbatim>\<open>novoValorPago >= Number(trabalho.valor_total)\<close>.
\<close>

definition approve_slot :: "PagamentoSemanal \<Rightarrow> World \<Rightarrow> World" where
  "approve_slot slot w =
     (let (owner, w1) = select_trabalho (trabalho_id slot) w;
          w2 = snd (insert_historico (history_row (map_option pessoa_id owner) slot) w1);
          (trabalho, w3) = select_trabalho (trabalho_id slot) w2
      in case trabalho of
           None \<Rightarrow> w3
         | Some t \<Rightarrow>
             (let novoValorPago = js_add (js_number (valor_pago t)) (js_number (valor slot));
                  concl = (novoValorPago \<ge> js_number (valor_total t))
              in snd (update_trabalho (trabalho_id slot) novoValorPago concl w3)))"

definition handleApprove2 :: "World \<Rightarrow> World" where
  "handleApprove2 w =
     (let w0 = w\<lparr>approving := True\<rparr>; filledSlots = filled (slots w0)
      in if length filledSlots = 0
         then (notify (ToastError ''Nenhum pagamento para aprovar'') w0)\<lparr>approving := False\<rparr>
         else (let w1 = fold approve_slot filledSlots w0;
                   w2 = snd (delete_all_pagamentos w1)
               in (notify (ToastSuccess ''Pagamentos aprovados com sucesso!'') (loadSlots w2))
                    \<lparr>approving := False\<rparr>))"

section \<open>Queue page: reordering the backlog\<close>

text \<open>
  \<^verbatim>\<open>loadData\<close> sends both queries and sets the state only when both succeeded. The
  list of people and the loading flag of the page are shown only and are left out.
\<close>

definition loadData :: "World \<Rightarrow> World" where
  "loadData w =
     (let (pessoasRes, w1) = select_pessoas w; (trabalhosRes, w2) = select_fila w1
      in case (pessoasRes, trabalhosRes) of
           (Some ps, Some ts) \<Rightarrow> w2\<lparr>fila := ts\<rparr>
         | _ \<Rightarrow> notify (ToastError ''Erro ao carregar dados'') w2)"

text \<open>\<^verbatim>\<open>reordered.map((trabalho, index) => ({ id: trabalho.id, prioridade: index }))\<close>\<close>

definition fila_updates :: "Trabalho list \<Rightarrow> TrabalhoUpsert list" where
  "fila_updates reordered =
     map (\<lambda>(index, t).
            \<lparr>tu_id = t_id t, tu_pessoa_id = None, tu_descricao = None, tu_valor_total = None,
             tu_valor_pago = None, tu_concluido = None, tu_prioridade = Some (int index)\<rparr>)
       (enumerate 0 reordered)"

definition Trabalhos_handleDragEnd :: "uuid \<Rightarrow> uuid option \<Rightarrow> World \<Rightarrow> World" where
  "Trabalhos_handleDragEnd active over w =
     (case over of
        None \<Rightarrow> w
      | Some ov \<Rightarrow>
          if active = ov then w
          else (case (findIndex (\<lambda>t. t_id t = active) (fila w),
                      findIndex (\<lambda>t. t_id t = ov) (fila w)) of
                  (Some oldIndex, Some newIndex) \<Rightarrow>
                    (let reordered = arrayMove (fila w) oldIndex newIndex;
                         w1 = w\<lparr>fila := reordered\<rparr>
                     in case upsert_trabalhos (fila_updates reordered) w1 of
                          (False, w2) \<Rightarrow> notify (ToastSuccess ''Prioridade atualizada!'') w2
                        | (True, w2) \<Rightarrow> loadData (notify (ToastError ''Erro ao reordenar trabalhos'') w2))
                | _ \<Rightarrow> w))"

section \<open>Events and state predicates\<close>

text \<open>One event is one call of a handler; a run is a list of events.\<close>

datatype event =
    LoadSlots
  | FillEmptySlots "nat \<Rightarrow> uuid"
  | DragSlot uuid "uuid option"
  | Remove uuid
  | PayManually bool PagamentoSemanal
  | Approve
  | Approve2
  | LoadData
  | DragTrabalho uuid "uuid option"

fun handle :: "event \<Rightarrow> World \<Rightarrow> World" where
  "handle LoadSlots w = loadSlots w"
| "handle (FillEmptySlots g) w = fillEmptySlots g w"
| "handle (DragSlot active over) w = Dashboard_handleDragEnd active over w"
| "handle (Remove k) w = handleRemove k w"
| "handle (PayManually confirmed slot) w = handlePayManually confirmed slot w"
| "handle Approve w = handleApprove w"
| "handle Approve2 w = handleApprove2 w"
| "handle LoadData w = loadData w"
| "handle (DragTrabalho active over) w = Trabalhos_handleDragEnd active over w"

definition run :: "event list \<Rightarrow> World \<Rightarrow> World" where
  "run es w = fold handle es w"

text \<open>The amount the history records for a work item.\<close>

definition paid_in_history :: "Database \<Rightarrow> uuid \<Rightarrow> money" where
  "paid_in_history d k =
     sum_list (map h_valor (filter (\<lambda>h. h_trabalho_id h = k) (historico_pagamentos d)))"

definition conserved :: "Database \<Rightarrow> bool" where
  "conserved d = (\<forall>t \<in> set (trabalhos d). valor_pago t = paid_in_history d (t_id t))"

text \<open>The invariant of a work item in section 3 of the spec.\<close>

definition balanced :: "Trabalho \<Rightarrow> bool" where
  "balanced t = (0 \<le> valor_pago t \<and> valor_pago t \<le> valor_total t \<and>
                 concluido t = (valor_pago t \<ge> valor_total t))"

text \<open>
  The parts of that invariant: the bounds of the paid amount, and a completion flag
  that is set only on a work item paid in full.
\<close>

definition within_total :: "Trabalho \<Rightarrow> bool" where
  "within_total t = (0 \<le> valor_pago t \<and> valor_pago t \<le> valor_total t)"

definition flag_sound :: "Trabalho \<Rightarrow> bool" where
  "flag_sound t = (concluido t \<longrightarrow> valor_total t \<le> valor_pago t)"

text \<open>
  Both parts, for a work item whose total is an amount of the store
  (\<^verbatim>\<open>DECIMAL(10, 2)\<close>).
\<close>

definition sound :: "Trabalho \<Rightarrow> bool" where
  "sound t = (within_total t \<and> flag_sound t \<and> valor_total t < 10 ^ 10)"

text \<open>
  The slots \<open>ss\<close> fit the store: no two are bound to the same work item, and the amount
  of each is between 0 and the remaining balance of the work item it is bound to.
\<close>

definition fits :: "PagamentoSemanal list \<Rightarrow> Database \<Rightarrow> bool" where
  "fits ss d =
     (distinct (map trabalho_id ss) \<and>
      (\<forall>s \<in> set ss. 0 \<le> valor s \<and>
         (\<forall>t \<in> set (trabalhos d). t_id t = trabalho_id s \<longrightarrow>
            valor s \<le> valor_total t - valor_pago t)))"

text \<open>What the capacity property asks of a board.\<close>

definition capacity_ok :: "PagamentoSemanal option list \<Rightarrow> bool" where
  "capacity_ok board =
     (length board = 10 \<and> length (filled board) \<le> 10 \<and>
      (\<forall>s \<in> set (filled board). 0 \<le> posicao s \<and> posicao s < 10) \<and>
      distinct (map posicao (filled board)))"

text \<open>What the capacity property asks of the stored rows.\<close>

definition rows_ok :: "PagamentoSemanal list \<Rightarrow> bool" where
  "rows_ok rows =
     (distinct (map posicao rows) \<and> (\<forall>s \<in> set rows. 0 \<le> posicao s \<and> posicao s < 10))"

text \<open>The board on the screen shows the stored board: the same keys at the same places.\<close>

definition in_sync :: "World \<Rightarrow> bool" where
  "in_sync w =
     (map (map_option ps_id) (slots w) =
      map (map_option ps_id) (build_board (sort_key posicao (pagamentos_semanais (db w)))))"

section \<open>Example states\<close>

definition ex_slot :: "uuid \<Rightarrow> uuid \<Rightarrow> money \<Rightarrow> int \<Rightarrow> PagamentoSemanal" where
  "ex_slot k t v p =
     \<lparr>ps_id = k, trabalho_id = t, pessoa_nome = ''Ana'', pessoa_funcao = ''Dev'',
      descricao_trabalho = ''Projeto X'', valor = v, posicao = p\<rparr>"

definition ex_trabalho :: "uuid \<Rightarrow> money \<Rightarrow> money \<Rightarrow> bool \<Rightarrow> int \<Rightarrow> Trabalho" where
  "ex_trabalho k vtotal vpago concl prio =
     \<lparr>t_id = k, pessoa_id = ''p1'', descricao = ''Projeto X'', valor_total = vtotal,
      valor_pago = vpago, concluido = concl, prioridade = prio\<rparr>"

definition ex_world ::
  "Trabalho list \<Rightarrow> PagamentoSemanal list \<Rightarrow> HistoricoPagamento list \<Rightarrow> bool list \<Rightarrow> World" where
  "ex_world ts ps hs outs =
     \<lparr>db = \<lparr>pessoas = [\<lparr>p_id = ''p1'', nome = ''Ana'', funcao = ''Dev''\<rparr>], trabalhos = ts,
             pagamentos_semanais = ps, historico_pagamentos = hs\<rparr>,
      outages = outs, slots = build_board (sort_key posicao ps), loading = False,
      approving = False, fila = sort_key prioridade (filter (\<lambda>t. \<not> concluido t) ts),
      toasts = []\<rparr>"

text \<open>Four stored rows, two of them on position 3 and two outside the board.\<close>

definition ex_rows_malformed :: "PagamentoSemanal list" where
  "ex_rows_malformed =
     [ex_slot ''s1'' ''t1'' 10000 3, ex_slot ''s2'' ''t2'' 5000 12,
      ex_slot ''s3'' ''t3'' 7000 3, ex_slot ''s4'' ''t4'' 100 (- 1)]"

text \<open>
  A board of two slots whose store fails from the fifth request on, for four requests:
  the first slot is settled, then every request for the second slot and the clearing of
  the board fail.
\<close>

definition ex_bulk_fault :: World where
  "ex_bulk_fault =
     ex_world [ex_trabalho ''t1'' 10000 0 False 0, ex_trabalho ''t2'' 5000 0 False 1]
       [ex_slot ''s1'' ''t1'' 10000 0, ex_slot ''s2'' ''t2'' 5000 1] []
       [False, False, False, False, True, True, True, True]"

text \<open>
  One slot; the store answers the lookup and the history insert, and fails the call of
  \<^verbatim>\<open>atualizar_valor_pago\<close>.
\<close>

definition ex_manual_fault :: World where
  "ex_manual_fault =
     ex_world [ex_trabalho ''t1'' 10000 0 False 0] [ex_slot ''s1'' ''t1'' 10000 0] []
       [False, False, True]"

text \<open>
  Two work items, the second with 20.00 already paid and recorded, and a slot for each
  remaining balance.
\<close>

definition ex_two :: World where
  "ex_two =
     ex_world [ex_trabalho ''t1'' 10000 0 False 0, ex_trabalho ''t2'' 5000 2000 False 1]
       [ex_slot ''s1'' ''t1'' 10000 0, ex_slot ''s2'' ''t2'' 3000 1]
       [history_row (Some ''p1'') (ex_slot ''s0'' ''t2'' 2000 0)] []"

text \<open>
  A work item with 60.00 of 100.00 paid and recorded, and a slot of 100.00 bound to it.
\<close>

definition ex_over :: World where
  "ex_over =
     ex_world [ex_trabalho ''t1'' 10000 6000 False 0] [ex_slot ''s1'' ''t1'' 10000 0]
       [history_row (Some ''p1'') (ex_slot ''s0'' ''t1'' 6000 0)] []"

text \<open>
  A work item with 100.10 of 300.30 paid and recorded, and a slot for the remaining
  200.20.
\<close>

definition ex_round :: World where
  "ex_round =
     ex_world [ex_trabalho ''t1'' 30030 10010 False 0] [ex_slot ''s1'' ''t1'' 20020 0]
       [history_row (Some ''p1'') (ex_slot ''s0'' ''t1'' 10010 0)] []"

text \<open>
  A board of two slots; of the requests of the approval loop only the fourth, the
  update of the first work item, fails.
\<close>

definition ex_loop_fault :: World where
  "ex_loop_fault =
     ex_world [ex_trabalho ''t1'' 10000 0 False 0, ex_trabalho ''t2'' 5000 0 False 1]
       [ex_slot ''s1'' ''t1'' 10000 0, ex_slot ''s2'' ''t2'' 5000 1] []
       [False, False, False, True]"

text \<open>
  Three pending work items with the ranks 1, 2 and 5, and a completed one of rank 0.
\<close>

definition ex_gap :: World where
  "ex_gap =
     ex_world [ex_trabalho ''t1'' 10000 0 False 1, ex_trabalho ''t2'' 5000 0 False 2,
               ex_trabalho ''t3'' 7000 0 False 5, ex_trabalho ''t0'' 5000 5000 True 0]
       [] [] []"

text \<open>
  Twelve pending work items \<open>a\<close> to \<open>l\<close> of 100.00 each, with the ranks 11 down
  to 0, 25.00 paid on each; the item \<open>c\<close> is on the board at position 2.
\<close>

definition ex_fill :: World where
  "ex_fill =
     ex_world
       (map (\<lambda>(k, p). ex_trabalho k 10000 2500 False p)
          (zip [''a'', ''b'', ''c'', ''d'', ''e'', ''f'', ''g'', ''h'', ''i'', ''j'', ''k'', ''l'']
               [11, 10, 9, 8, 7, 6, 5, 4, 3, 2, 1, 0]))
       [ex_slot ''s1'' ''c'' 7500 2] [] []"

definition ex_gen :: "nat \<Rightarrow> uuid" where
  "ex_gen i = replicate (Suc i) CHR ''n''"

section \<open>Rounding of the client's numbers\<close>

text \<open>
  A double is within a relative \<open>2\<^sup>-\<^sup>5\<^sup>3\<close> of the rational it rounds. For amounts in
  the range of \<^verbatim>\<open>DECIMAL(10, 2)\<close> this is far below half a centavo: the sum of two
  amounts, computed on doubles and stored with two decimals, is their exact sum. The
  double of the sum need not be the double of the exact sum, though: see
  \<open>js_add_rounds_below\<close>.
\<close>

lemma rne_cases: "rne y = \<lfloor>y\<rfloor> \<or> rne y = \<lfloor>y\<rfloor> + 1"
  by (simp add: rne_def Let_def)

lemma rne_error: "\<bar>of_int (rne y) - y\<bar> \<le> 1 / 2"
proof -
  let ?f = "\<lfloor>y\<rfloor>"
  let ?r = "y - of_int ?f"
  have r: "0 \<le> ?r" "?r < 1" by linarith+
  consider "?r < 1 / 2" | "?r > 1 / 2" | "?r = 1 / 2" by linarith
  then show ?thesis
  proof cases
    case 1
    then have "rne y = ?f" by (simp add: rne_def Let_def)
    with 1 r show ?thesis by simp
  next
    case 2
    then have "rne y = ?f + 1" by (simp add: rne_def Let_def)
    with 2 r show ?thesis by simp
  next
    case 3
    from rne_cases [of y] show ?thesis
    proof
      assume "rne y = ?f"
      with 3 show ?thesis by simp
    next
      assume "rne y = ?f + 1"
      with 3 show ?thesis by simp
    qed
  qed
qed

lemma rne_nonneg: "0 \<le> y \<Longrightarrow> 0 \<le> rne y"
proof -
  assume "0 \<le> y"
  then have "0 \<le> \<lfloor>y\<rfloor>" by simp
  with rne_cases [of y] show ?thesis by linarith
qed

lemma expo_bounds:
  assumes "0 < q"
  shows "2 powi (expo q) \<le> q \<and> q < 2 powi (expo q + 1)"
proof (cases "1 \<le> q")
  case True
  let ?n = "\<lfloor>q\<rfloor>"
  from True have n: "?n > 0" by linarith
  from bitlen_bounds [OF n] have b: "2 ^ nat (bitlen ?n - 1) \<le> ?n" "?n < 2 ^ nat (bitlen ?n)"
    by blast+
  from n have bl: "bitlen ?n \<ge> 1" by (auto simp: bitlen_alt_def)
  have "(2::rat) powi (bitlen ?n - 1) = of_int (2 ^ nat (bitlen ?n - 1))"
    using bl by (simp add: power_int_def)
  also have "\<dots> \<le> of_int ?n" using b(1) by (simp only: of_int_le_iff)
  also have "\<dots> \<le> q" by simp
  finally have lo: "2 powi (bitlen ?n - 1) \<le> q" .
  from b(2) have "?n + 1 \<le> 2 ^ nat (bitlen ?n)" by simp
  then have "(of_int (?n + 1) :: rat) \<le> of_int (2 ^ nat (bitlen ?n))"
    by (simp only: of_int_le_iff)
  moreover have "q < of_int (?n + 1)" by simp linarith
  ultimately have "q < of_int (2 ^ nat (bitlen ?n))" by linarith
  also have "\<dots> = 2 powi (bitlen ?n)" using bl by (simp add: power_int_def)
  finally have hi: "q < 2 powi (bitlen ?n - 1 + 1)" by simp
  from True lo hi show ?thesis by (simp add: expo_def)
next
  case False
  let ?y = "1 / q"
  let ?m = "\<lceil>?y\<rceil> - 1"
  from False assms have y1: "1 < ?y" by (simp add: field_simps)
  then have m: "?m > 0" by linarith
  from bitlen_bounds [OF m] have b: "2 ^ nat (bitlen ?m - 1) \<le> ?m" "?m < 2 ^ nat (bitlen ?m)"
    by blast+
  from m have bl: "bitlen ?m \<ge> 1" by (auto simp: bitlen_alt_def)
  let ?k = "bitlen ?m"
  have "?y \<le> of_int (?m + 1)" by simp
  also from b(2) have "?m + 1 \<le> 2 ^ nat ?k" by simp
  then have "(of_int (?m + 1) :: rat) \<le> of_int (2 ^ nat ?k)" by (simp only: of_int_le_iff)
  finally have "?y \<le> 2 ^ nat ?k" by simp
  then have "1 \<le> q * 2 ^ nat ?k" using assms by (simp add: field_simps)
  then have lo: "2 powi (- ?k) \<le> q"
    using bl by (simp add: power_int_def field_simps)
  have "(of_int (2 ^ nat (?k - 1)) :: rat) \<le> of_int ?m" using b(1) by (simp only: of_int_le_iff)
  also have "of_int ?m < ?y" by simp linarith
  finally have "2 ^ nat (?k - 1) < ?y" by simp
  then have "q * 2 ^ nat (?k - 1) < 1" using assms by (simp add: field_simps)
  then have "q < 1 / 2 ^ nat (?k - 1)" by (simp add: field_simps)
  also have "1 / 2 ^ nat (?k - 1) = (2::rat) powi (- (?k - 1))"
    using bl by (simp add: power_int_minus_divide power_int_def power_divide)
  finally have hi: "q < 2 powi (- ?k + 1)" by simp
  from False lo hi show ?thesis by (simp add: expo_def)
qed

lemma to_double_error: "\<bar>to_double q - q\<bar> \<le> \<bar>q\<bar> / 2 ^ 53"
proof (cases "q = 0")
  case True
  then show ?thesis by (simp add: to_double_def)
next
  case False
  let ?e = "expo \<bar>q\<bar>"
  let ?u = "(2::rat) powi (?e - 52)"
  from False have pos: "0 < \<bar>q\<bar>" by simp
  have u: "0 < ?u" by simp
  from expo_bounds [OF pos] have lo: "2 powi ?e \<le> \<bar>q\<bar>" by blast
  have sq: "sgn q * \<bar>q\<bar> = q" by (rule sgn_mult_abs)
  have "(of_int (rne (\<bar>q\<bar> / ?u)) - \<bar>q\<bar> / ?u) * ?u = of_int (rne (\<bar>q\<bar> / ?u)) * ?u - \<bar>q\<bar>"
    using u by (simp add: left_diff_distrib)
  then have "sgn q * ((of_int (rne (\<bar>q\<bar> / ?u)) - \<bar>q\<bar> / ?u) * ?u) =
      sgn q * (of_int (rne (\<bar>q\<bar> / ?u)) * ?u) - q"
    by (simp only: right_diff_distrib sq)
  moreover have "to_double q = sgn q * (of_int (rne (\<bar>q\<bar> / ?u)) * ?u)"
    using False by (simp add: to_double_def Let_def mult.assoc)
  ultimately have "to_double q - q = sgn q * ((of_int (rne (\<bar>q\<bar> / ?u)) - \<bar>q\<bar> / ?u) * ?u)"
    by simp
  then have "\<bar>to_double q - q\<bar> = \<bar>of_int (rne (\<bar>q\<bar> / ?u)) - \<bar>q\<bar> / ?u\<bar> * ?u"
    using False u by (simp add: abs_mult abs_sgn_eq)
  also have "\<dots> \<le> 1 / 2 * ?u"
    using rne_error [of "\<bar>q\<bar> / ?u"] u by (intro mult_right_mono) simp_all
  also have "1 / 2 * ?u = 2 powi ?e / 2 ^ 53"
    by (simp add: power_int_diff)
  also have "\<dots> \<le> \<bar>q\<bar> / 2 ^ 53" using lo by (simp add: divide_right_mono)
  finally show ?thesis .
qed

lemma to_double_nonneg: "0 \<le> q \<Longrightarrow> 0 \<le> to_double q"
proof (cases "q = 0")
  case True
  then show ?thesis by (simp add: to_double_def)
next
  case False
  assume "0 \<le> q"
  with False have q: "0 < q" by simp
  let ?u = "(2::rat) powi (expo \<bar>q\<bar> - 52)"
  have "0 \<le> \<bar>q\<bar> / ?u" by simp
  then have "0 \<le> rne (\<bar>q\<bar> / ?u)" by (rule rne_nonneg)
  then have "0 \<le> (of_int (rne (\<bar>q\<bar> / ?u)) :: rat) * ?u" by simp
  moreover have "to_double q = of_int (rne (\<bar>q\<bar> / ?u)) * ?u"
    using q by (simp add: to_double_def Let_def)
  ultimately show ?thesis by simp
qed

lemma js_add_error:
  assumes p: "0 \<le> p" and v: "0 \<le> v" and r: "p + v < 10 ^ 10"
  shows "\<bar>js_add (js_number p) (js_number v) - of_int (p + v) / 100\<bar> \<le> (2 * 10 ^ 8 + 1) / 2 ^ 53"
proof -
  let ?P = "of_int p / 100 :: rat" and ?V = "of_int v / 100 :: rat"
  let ?a = "js_number p" and ?b = "js_number v"
  let ?x = "to_double (?a + ?b)"
  have P: "0 \<le> ?P" "?P \<le> 10 ^ 8" and V: "0 \<le> ?V" "?V \<le> 10 ^ 8" and S: "?P + ?V \<le> 10 ^ 8"
    using p v r by simp_all
  have ea: "\<bar>?a - ?P\<bar> \<le> ?P / 2 ^ 53"
    using to_double_error [of ?P] P by (simp add: js_number_def)
  have eb: "\<bar>?b - ?V\<bar> \<le> ?V / 2 ^ 53"
    using to_double_error [of ?V] V by (simp add: js_number_def)
  have es: "\<bar>(?a + ?b) - (?P + ?V)\<bar> \<le> 10 ^ 8 / 2 ^ 53"
  proof -
    have "\<bar>(?a + ?b) - (?P + ?V)\<bar> \<le> \<bar>?a - ?P\<bar> + \<bar>?b - ?V\<bar>" by linarith
    also have "\<dots> \<le> (?P + ?V) / 2 ^ 53" using ea eb by (simp add: add_divide_distrib)
    also have "\<dots> \<le> 10 ^ 8 / 2 ^ 53" using S by (simp add: divide_right_mono)
    finally show ?thesis .
  qed
  have "(10 ^ 8 / 2 ^ 53 :: rat) \<le> 1" by simp
  with es have "\<bar>(?a + ?b) - (?P + ?V)\<bar> \<le> 1" by linarith
  with S P V have ab: "\<bar>?a + ?b\<bar> \<le> 10 ^ 8 + 1" by linarith
  have "\<bar>?x - (?a + ?b)\<bar> \<le> \<bar>?a + ?b\<bar> / 2 ^ 53" by (rule to_double_error)
  also have "\<dots> \<le> (10 ^ 8 + 1) / 2 ^ 53" using ab by (simp add: divide_right_mono)
  finally have ex: "\<bar>?x - (?a + ?b)\<bar> \<le> (10 ^ 8 + 1) / 2 ^ 53" .
  have "\<bar>?x - (?P + ?V)\<bar> \<le> \<bar>?x - (?a + ?b)\<bar> + \<bar>(?a + ?b) - (?P + ?V)\<bar>" by linarith
  also have "\<dots> \<le> (10 ^ 8 + 1) / 2 ^ 53 + 10 ^ 8 / 2 ^ 53" using ex es by linarith
  also have "\<dots> = (2 * 10 ^ 8 + 1) / 2 ^ 53" by simp
  finally have "\<bar>?x - (?P + ?V)\<bar> \<le> (2 * 10 ^ 8 + 1) / 2 ^ 53" .
  moreover have "?P + ?V = of_int (p + v) / 100" by (simp add: add_divide_distrib)
  ultimately show ?thesis by (simp only: js_add_def)
qed

lemma js_add_nonneg:
  assumes "0 \<le> p" "0 \<le> v"
  shows "0 \<le> js_add (js_number p) (js_number v)"
proof -
  from assms have "0 \<le> js_number p" "0 \<le> js_number v"
    by (simp_all add: js_number_def to_double_nonneg)
  then show ?thesis by (simp add: js_add_def to_double_nonneg)
qed

text \<open>
  An amount that the client read and sends back unchanged is stored as it was.
\<close>

lemma stored_js_number:
  assumes c: "0 \<le> c" and r: "c < 10 ^ 10"
  shows "stored (js_number c) = c"
proof -
  let ?C = "of_int c / 100 :: rat"
  have C: "0 \<le> ?C" "?C \<le> 10 ^ 8" using c r by simp_all
  have "\<bar>js_number c - ?C\<bar> \<le> \<bar>?C\<bar> / 2 ^ 53"
    unfolding js_number_def by (rule to_double_error)
  also have "\<dots> \<le> 10 ^ 8 / 2 ^ 53" using C by (simp add: divide_right_mono)
  also have "\<dots> < 1 / 200" by simp
  finally have e: "\<bar>js_number c - ?C\<bar> < 1 / 200" .
  have g: "\<bar>100 * z\<bar> < 1 / 2" if "\<bar>z\<bar> < 1 / 200" for z :: rat
    using that by (simp add: abs_mult)
  from g [OF e] have "\<bar>100 * (js_number c - ?C)\<bar> < 1 / 2" .
  moreover have "100 * (js_number c - ?C) = 100 * js_number c - of_int c"
    by (simp add: algebra_simps)
  ultimately have "\<bar>100 * js_number c - of_int c\<bar> < 1 / 2" by (simp only:)
  then have "round (100 * js_number c) = c" by (rule round_unique')
  moreover have "0 \<le> js_number c" using C by (simp add: js_number_def to_double_nonneg)
  ultimately show ?thesis by (simp add: stored_def)
qed

text \<open>What the store keeps of the sum is the exact sum.\<close>

lemma stored_sum:
  assumes p: "0 \<le> p" and v: "0 \<le> v" and r: "p + v < 10 ^ 10"
  shows "stored (js_add (js_number p) (js_number v)) = p + v"
proof -
  let ?x = "js_add (js_number p) (js_number v)"
  let ?S = "of_int (p + v) / 100 :: rat"
  have "\<bar>?x - ?S\<bar> \<le> (2 * 10 ^ 8 + 1) / 2 ^ 53" by (rule js_add_error [OF p v r])
  also have "\<dots> < 1 / 200" by simp
  finally have e: "\<bar>?x - ?S\<bar> < 1 / 200" .
  have g: "\<bar>100 * z\<bar> < 1 / 2" if "\<bar>z\<bar> < 1 / 200" for z :: rat
    using that by (simp add: abs_mult)
  from g [OF e] have "\<bar>100 * (?x - ?S)\<bar> < 1 / 2" .
  moreover have "100 * (?x - ?S) = 100 * ?x - of_int (p + v)"
    by (simp add: algebra_simps)
  ultimately have "\<bar>100 * ?x - of_int (p + v)\<bar> < 1 / 2" by (simp only:)
  then have "round (100 * ?x) = p + v" by (rule round_unique')
  moreover have "0 \<le> ?x" by (rule js_add_nonneg [OF p v])
  ultimately show ?thesis by (simp add: stored_def)
qed

text \<open>A sum that stays below the total is not taken for the total.\<close>

lemma js_add_below:
  assumes p: "0 \<le> p" and v: "0 \<le> v" and lt: "p + v < tot" and r: "tot < 10 ^ 10"
  shows "\<not> js_number tot \<le> js_add (js_number p) (js_number v)"
proof -
  let ?x = "js_add (js_number p) (js_number v)"
  let ?S = "of_int (p + v) / 100 :: rat"
  let ?T = "of_int tot / 100 :: rat"
  from lt r have r': "p + v < 10 ^ 10" by linarith
  have ex: "\<bar>?x - ?S\<bar> \<le> (2 * 10 ^ 8 + 1) / 2 ^ 53" by (rule js_add_error [OF p v r'])
  from p v lt have T0: "0 \<le> ?T" by simp
  from r have T8: "?T \<le> 10 ^ 8" by simp
  have "\<bar>js_number tot - ?T\<bar> \<le> \<bar>?T\<bar> / 2 ^ 53"
    unfolding js_number_def by (rule to_double_error)
  also have "\<dots> \<le> 10 ^ 8 / 2 ^ 53" using T0 T8 by (simp add: divide_right_mono)
  finally have et: "\<bar>js_number tot - ?T\<bar> \<le> 10 ^ 8 / 2 ^ 53" .
  from lt have "p + v + 1 \<le> tot" by simp
  then have "(of_int (p + v + 1) :: rat) \<le> of_int tot" by (simp only: of_int_le_iff)
  then have "?S + 1 / 100 \<le> ?T" by (simp add: add_divide_distrib)
  moreover have "(2 * 10 ^ 8 + 1) / 2 ^ 53 + 10 ^ 8 / 2 ^ 53 < (1 / 100 :: rat)" by simp
  ultimately have "?x < js_number tot" using ex et by linarith
  then show ?thesis by simp
qed

text \<open>
  100.10 + 200.20 on doubles is 300.29999999999995, below the double of 300.30; the
  store keeps 300.30 of it.
\<close>

lemma js_add_rounds_below:
  "stored (js_add (js_number 10010) (js_number 20020)) = 30030 \<and>
   js_add (js_number 10010) (js_number 20020) < js_number 30030"
  by code_simp

section \<open>The board built by loadSlots\<close>

lemma length_place [simp]: "length (place b r) = length b"
  by (simp add: place_def)

lemma length_foldl_place [simp]: "length (foldl place b rs) = length b"
  by (induction rs arbitrary: b) simp_all

lemma length_build_board [simp]: "length (build_board data) = 10"
  by (simp add: build_board_def)

lemma foldl_place_nth:
  "i < length b \<Longrightarrow>
   foldl place b rs ! i =
     (if filter (\<lambda>r. posicao r = int i \<and> posicao r < 10) rs = [] then b ! i
      else Some (last (filter (\<lambda>r. posicao r = int i \<and> posicao r < 10) rs)))"
proof (induction rs rule: rev_induct)
  case Nil
  then show ?case by simp
next
  case (snoc r rs)
  have len: "i < length (foldl place b rs)" using snoc.prems by simp
  show ?case
  proof (cases "posicao r = int i \<and> posicao r < 10")
    case True
    then have "place (foldl place b rs) r = (foldl place b rs)[i := Some r]"
      by (simp add: place_def)
    with True len show ?thesis by simp
  next
    case False
    have "place (foldl place b rs) r ! i = foldl place b rs ! i"
    proof (cases "posicao r \<ge> 0 \<and> posicao r < 10")
      case True
      with False have "nat (posicao r) \<noteq> i" by auto
      with True show ?thesis by (simp add: place_def)
    next
      case False
      then show ?thesis by (auto simp: place_def)
    qed
    moreover have "filter (\<lambda>r. posicao r = int i \<and> posicao r < 10) (rs @ [r]) =
        filter (\<lambda>r. posicao r = int i \<and> posicao r < 10) rs"
      using False by auto
    ultimately show ?thesis using snoc by simp
  qed
qed

lemma build_board_nth:
  assumes "i < 10"
  shows "build_board data ! i =
     (if filter (\<lambda>r. posicao r = int i) data = [] then None
      else Some (last (filter (\<lambda>r. posicao r = int i) data)))"
proof -
  have eq: "filter (\<lambda>r. posicao r = int i \<and> posicao r < 10) data =
            filter (\<lambda>r. posicao r = int i) data"
    using assms by (intro filter_cong) auto
  show ?thesis
    using foldl_place_nth [of i "replicate 10 None" data] assms
    by (simp add: build_board_def eq)
qed

lemma build_board_Some:
  assumes "Some r \<in> set (build_board data)"
  shows "r \<in> set data \<and> 0 \<le> posicao r \<and> posicao r < 10 \<and>
         build_board data ! nat (posicao r) = Some r"
proof -
  from assms obtain i where i: "i < 10" "build_board data ! i = Some r"
    by (auto simp: in_set_conv_nth)
  let ?f = "filter (\<lambda>r. posicao r = int i) data"
  from i have ne: "?f \<noteq> []" and r: "r = last ?f"
    by (auto simp: build_board_nth split: if_splits)
  from ne have "last ?f \<in> set ?f" by (rule last_in_set)
  with r have "r \<in> set data" "posicao r = int i" by auto
  with i show ?thesis by simp
qed

lemma loadSlots_slots:
  "available w \<Longrightarrow>
   slots (loadSlots w) = build_board (sort_key posicao (pagamentos_semanais (db w)))"
  by (simp add: loadSlots_def select_pagamentos_def tick_def)

lemma loadSlots_db [simp]: "db (loadSlots w) = db w"
  by (simp add: loadSlots_def select_pagamentos_def tick_def notify_def)

text \<open>
  Claim C10. Whatever rows are stored, the board that \<open>loadSlots\<close> builds from a
  successful query has exactly ten entries; entry \<open>i\<close> is empty when no stored row has
  position \<open>i\<close>, and otherwise holds the last row with position \<open>i\<close> in the order of the
  query result (rows sorted by ascending position); a row whose position is outside
  \<open>0..9\<close> is on no entry.
\<close>

theorem loadSlots_board:
  assumes "available w"
  shows "let data = sort_key posicao (pagamentos_semanais (db w)); board = slots (loadSlots w)
         in length board = 10 \<and>
            (\<forall>i<10. board ! i =
               (if filter (\<lambda>r. posicao r = int i) data = [] then None
                else Some (last (filter (\<lambda>r. posicao r = int i) data)))) \<and>
            (\<forall>r \<in> set data. posicao r < 0 \<or> posicao r \<ge> 10 \<longrightarrow> Some r \<notin> set board)"
proof -
  let ?data = "sort_key posicao (pagamentos_semanais (db w))"
  have b: "slots (loadSlots w) = build_board ?data"
    using assms by (rule loadSlots_slots)
  have "\<forall>r \<in> set ?data. posicao r < 0 \<or> posicao r \<ge> 10 \<longrightarrow> Some r \<notin> set (build_board ?data)"
    using build_board_Some [of _ ?data] by fastforce
  then show ?thesis
    unfolding Let_def b by (simp add: build_board_nth)
qed

theorem loadSlots_board_witness:
  "available (ex_world [] ex_rows_malformed [] []) \<and>
   slots (loadSlots (ex_world [] ex_rows_malformed [] [])) =
     [None, None, None, Some (ex_slot ''s3'' ''t3'' 7000 3), None, None, None, None, None, None] \<and>
   (let data = sort_key posicao (pagamentos_semanais (db (ex_world [] ex_rows_malformed [] [])));
        board = slots (loadSlots (ex_world [] ex_rows_malformed [] []))
    in length board = 10 \<and>
       (\<forall>i<10. board ! i =
          (if filter (\<lambda>r. posicao r = int i) data = [] then None
           else Some (last (filter (\<lambda>r. posicao r = int i) data)))) \<and>
       (\<forall>r \<in> set data. posicao r < 0 \<or> posicao r \<ge> 10 \<longrightarrow> Some r \<notin> set board))"
proof -
  have a: "available (ex_world [] ex_rows_malformed [] [])"
    by (simp add: available_def ex_world_def)
  have "slots (loadSlots (ex_world [] ex_rows_malformed [] [])) =
     [None, None, None, Some (ex_slot ''s3'' ''t3'' 7000 3), None, None, None, None, None, None]"
    by (simp add: loadSlots_slots [OF a])
       (simp add: ex_world_def ex_rows_malformed_def ex_slot_def build_board_def place_def
          numeral_eq_Suc)
  with a loadSlots_board [OF a] show ?thesis by simp
qed

section \<open>Removing a slot\<close>

lemma db_notify [simp]: "db (notify t w) = db w"
  by (simp add: notify_def)

lemma db_tick [simp]: "db (tick w) = db w"
  by (simp add: tick_def)

lemma available_approving [simp]: "available (w\<lparr>approving := b\<rparr>) = available w"
  by (simp add: available_def)

text \<open>
  Claim C9. \<open>handleRemove\<close> changes no work item (so neither the paid amount nor the
  completion flag of the bound one), adds no history entry, and leaves every slot with
  another key as it was; when the request succeeds the slots left are exactly those
  with another key.
\<close>

theorem handleRemove_only_slot:
  "trabalhos (db (handleRemove k w)) = trabalhos (db w) \<and>
   historico_pagamentos (db (handleRemove k w)) = historico_pagamentos (db w) \<and>
   pessoas (db (handleRemove k w)) = pessoas (db w) \<and>
   filter (\<lambda>s. ps_id s \<noteq> k) (pagamentos_semanais (db (handleRemove k w))) =
     filter (\<lambda>s. ps_id s \<noteq> k) (pagamentos_semanais (db w)) \<and>
   (available w \<longrightarrow>
      pagamentos_semanais (db (handleRemove k w)) =
        filter (\<lambda>s. ps_id s \<noteq> k) (pagamentos_semanais (db w)))"
  by (simp add: handleRemove_def delete_pagamento_def)

theorem handleRemove_only_slot_witness:
  "available (ex_world [ex_trabalho ''t1'' 10000 0 False 0]
      [ex_slot ''s1'' ''t1'' 10000 0, ex_slot ''s2'' ''t2'' 5000 1] [] []) \<and>
   db (handleRemove ''s1'' (ex_world [ex_trabalho ''t1'' 10000 0 False 0]
      [ex_slot ''s1'' ''t1'' 10000 0, ex_slot ''s2'' ''t2'' 5000 1] [] [])) =
     \<lparr>pessoas = [\<lparr>p_id = ''p1'', nome = ''Ana'', funcao = ''Dev''\<rparr>],
      trabalhos = [ex_trabalho ''t1'' 10000 0 False 0],
      pagamentos_semanais = [ex_slot ''s2'' ''t2'' 5000 1],
      historico_pagamentos = []\<rparr>"
proof -
  let ?w = "ex_world [ex_trabalho ''t1'' 10000 0 False 0]
      [ex_slot ''s1'' ''t1'' 10000 0, ex_slot ''s2'' ''t2'' 5000 1] [] []"
  have a: "available ?w" by (simp add: available_def ex_world_def)
  have d: "db ?w = \<lparr>pessoas = [\<lparr>p_id = ''p1'', nome = ''Ana'', funcao = ''Dev''\<rparr>],
      trabalhos = [ex_trabalho ''t1'' 10000 0 False 0],
      pagamentos_semanais = [ex_slot ''s1'' ''t1'' 10000 0, ex_slot ''s2'' ''t2'' 5000 1],
      historico_pagamentos = []\<rparr>"
    by (simp add: ex_world_def)
  have "db (handleRemove ''s1'' ?w) =
     \<lparr>pessoas = pessoas (db ?w), trabalhos = trabalhos (db ?w),
      pagamentos_semanais = filter (\<lambda>s. ps_id s \<noteq> ''s1'') (pagamentos_semanais (db ?w)),
      historico_pagamentos = historico_pagamentos (db ?w)\<rparr>"
    using handleRemove_only_slot [of "''s1''" ?w] a by simp
  then show ?thesis using a unfolding d by (simp add: ex_slot_def)
qed

section \<open>Approving an empty board\<close>

lemma filled_empty: "(\<forall>s \<in> set ss. s = None) \<Longrightarrow> filled ss = []"
  by (induction ss) (simp_all add: filled_def)

text \<open>
  Claim C5. When no entry of the board is occupied, both versions of \<open>handleApprove\<close>
  only report that there is nothing to approve: the toast is shown before any request
  is sent, and the store, the failure schedule and the board are unchanged.
\<close>

theorem handleApprove_empty_board:
  assumes "\<forall>s \<in> set (slots w). s = None"
  shows "handleApprove w =
           (notify (ToastInfo ''Nenhum pagamento para aprovar.'') w)\<lparr>approving := False\<rparr> \<and>
         handleApprove2 w =
           (notify (ToastError ''Nenhum pagamento para aprovar'') w)\<lparr>approving := False\<rparr> \<and>
         db (handleApprove w) = db w \<and> db (handleApprove2 w) = db w \<and>
         outages (handleApprove w) = outages w \<and> outages (handleApprove2 w) = outages w \<and>
         slots (handleApprove w) = slots w \<and> slots (handleApprove2 w) = slots w"
  using filled_empty [OF assms]
  by (simp add: handleApprove_def handleApprove2_def notify_def)

theorem handleApprove_empty_board_witness:
  "list_all (\<lambda>s. s = None) (slots (ex_world [ex_trabalho ''t1'' 10000 0 False 0] [] [] [])) \<and>
   toasts (handleApprove (ex_world [ex_trabalho ''t1'' 10000 0 False 0] [] [] [])) =
     [ToastInfo ''Nenhum pagamento para aprovar.''] \<and>
   toasts (handleApprove2 (ex_world [ex_trabalho ''t1'' 10000 0 False 0] [] [] [])) =
     [ToastError ''Nenhum pagamento para aprovar''] \<and>
   db (handleApprove (ex_world [ex_trabalho ''t1'' 10000 0 False 0] [] [] [])) =
     db (ex_world [ex_trabalho ''t1'' 10000 0 False 0] [] [] []) \<and>
   db (handleApprove2 (ex_world [ex_trabalho ''t1'' 10000 0 False 0] [] [] [])) =
     db (ex_world [ex_trabalho ''t1'' 10000 0 False 0] [] [] [])"
proof -
  let ?w = "ex_world [ex_trabalho ''t1'' 10000 0 False 0] [] [] []"
  have e: "\<forall>s \<in> set (slots ?w). s = None"
    by (simp add: ex_world_def build_board_def)
  have t: "toasts ?w = []" by (simp add: ex_world_def)
  from handleApprove_empty_board [OF e] e t show ?thesis
    by (simp add: notify_def list_all_iff)
qed

section \<open>Settlement under a failing store\<close>

text \<open>
  Claim C1, evaluated on the client-side approval loop (\<open>handleApprove2\<close>). The store
  fails after the first of two slots has been settled. Afterwards the history has the
  row of the first slot, the first work item is paid, both slots are still stored, and
  the user is told that the approval succeeded: the state is not the state before the
  call. (The first \<open>handleApprove\<close> leaves that to its stored procedure, which is
  modelled as all or nothing.)
\<close>

theorem handleApprove2_partial_failure:
  "historico_pagamentos (db ex_bulk_fault) = [] \<and>
   historico_pagamentos (db (handleApprove2 ex_bulk_fault)) =
     [history_row (Some ''p1'') (ex_slot ''s1'' ''t1'' 10000 0)] \<and>
   map valor_pago (trabalhos (db ex_bulk_fault)) = [0, 0] \<and>
   map valor_pago (trabalhos (db (handleApprove2 ex_bulk_fault))) = [10000, 0] \<and>
   pagamentos_semanais (db (handleApprove2 ex_bulk_fault)) =
     [ex_slot ''s1'' ''t1'' 10000 0, ex_slot ''s2'' ''t2'' 5000 1] \<and>
   toasts (handleApprove2 ex_bulk_fault) =
     [ToastSuccess ''Pagamentos aprovados com sucesso!''] \<and>
   db (handleApprove2 ex_bulk_fault) \<noteq> db ex_bulk_fault"
  by code_simp

text \<open>
  Claim C2, evaluated on \<open>handlePayManually\<close>. The history insert succeeds and the
  balance update fails. Afterwards the history has the row of the slot, the work item
  is as before (nothing paid), and the slot is still stored: the history entry has no
  balance update to go with it.
\<close>

theorem handlePayManually_orphan_history:
  "historico_pagamentos (db ex_manual_fault) = [] \<and>
   historico_pagamentos
     (db (handlePayManually True (ex_slot ''s1'' ''t1'' 10000 0) ex_manual_fault)) =
     [history_row (Some ''p1'') (ex_slot ''s1'' ''t1'' 10000 0)] \<and>
   trabalhos (db (handlePayManually True (ex_slot ''s1'' ''t1'' 10000 0) ex_manual_fault)) =
     [ex_trabalho ''t1'' 10000 0 False 0] \<and>
   pagamentos_semanais
     (db (handlePayManually True (ex_slot ''s1'' ''t1'' 10000 0) ex_manual_fault)) =
     [ex_slot ''s1'' ''t1'' 10000 0] \<and>
   toasts (handlePayManually True (ex_slot ''s1'' ''t1'' 10000 0) ex_manual_fault) =
     [ToastError ''Erro ao realizar pagamento manual.'']"
  by code_simp

section \<open>Runs on a store that answers every request\<close>

lemma reliable_available: "outages w = [] \<Longrightarrow> available w"
  by (simp add: available_def)

lemma reliable_tick: "outages w = [] \<Longrightarrow> tick w = w"
  by (simp add: tick_def)

lemma outages_notify [simp]: "outages (notify t w) = outages w"
  by (simp add: notify_def)

lemma outages_tick_Nil: "outages w = [] \<Longrightarrow> outages (tick w) = []"
  by (simp add: tick_def)

lemma outages_loadSlots: "outages w = [] \<Longrightarrow> outages (loadSlots w) = []"
  by (simp add: loadSlots_def select_pagamentos_def reliable_available tick_def)

lemma outages_handleRemove: "outages w = [] \<Longrightarrow> outages (handleRemove k w) = []"
  by (simp add: handleRemove_def delete_pagamento_def reliable_available tick_def outages_loadSlots)

lemma outages_fillEmptySlots: "outages w = [] \<Longrightarrow> outages (fillEmptySlots g w) = []"
  by (simp add: fillEmptySlots_def preencher_slots_pagamento_def reliable_available tick_def outages_loadSlots)

lemma outages_loadData: "outages w = [] \<Longrightarrow> outages (loadData w) = []"
  by (simp add: loadData_def select_pessoas_def select_fila_def reliable_available tick_def available_def)

lemma outages_DragSlot: "outages w = [] \<Longrightarrow> outages (Dashboard_handleDragEnd a ov w) = []"
  by (auto simp: Dashboard_handleDragEnd_def upsert_pagamentos_def Let_def tick_def outages_loadSlots
      split: option.splits)

lemma outages_DragTrabalho: "outages w = [] \<Longrightarrow> outages (Trabalhos_handleDragEnd a ov w) = []"
  by (auto simp: Trabalhos_handleDragEnd_def upsert_trabalhos_def Let_def tick_def outages_loadData
      split: option.splits)

lemma outages_approve_slot: "outages w = [] \<Longrightarrow> outages (approve_slot s w) = []"
  by (auto simp: approve_slot_def select_trabalho_def insert_historico_def update_trabalho_def
       Let_def tick_def available_def split: option.splits)

lemma outages_fold_approve_slot: "outages w = [] \<Longrightarrow> outages (fold approve_slot ss w) = []"
  by (induction ss arbitrary: w) (simp_all add: outages_approve_slot)

lemma outages_handleApprove2: "outages w = [] \<Longrightarrow> outages (handleApprove2 w) = []"
  by (simp add: handleApprove2_def Let_def delete_all_pagamentos_def tick_def
      outages_loadSlots outages_fold_approve_slot)

lemma outages_handleApprove: "outages w = [] \<Longrightarrow> outages (handleApprove w) = []"
  by (auto simp: handleApprove_def Let_def aprovar_pagamentos_semanais_def tick_def
      outages_loadSlots split: option.splits)

lemma outages_handlePayManually: "outages w = [] \<Longrightarrow> outages (handlePayManually c s w) = []"
  by (auto simp: handlePayManually_def Let_def select_trabalho_def insert_historico_def
      atualizar_valor_pago_def tick_def available_def outages_handleRemove split: option.splits)

lemma outages_handle: "outages w = [] \<Longrightarrow> outages (handle e w) = []"
  by (cases e) (simp_all add: outages_loadSlots outages_handleRemove outages_fillEmptySlots
     outages_loadData outages_DragSlot outages_DragTrabalho outages_handleApprove2
     outages_handleApprove outages_handlePayManually)


lemma paid_in_history_append:
  "historico_pagamentos d' = historico_pagamentos d @ [h] \<Longrightarrow>
   paid_in_history d' k = paid_in_history d k + (if h_trabalho_id h = k then h_valor h else 0)"
  by (simp add: paid_in_history_def)

lemma conserved_frame:
  assumes "conserved d"
    and "map (\<lambda>t. (t_id t, valor_pago t)) (trabalhos d') = map (\<lambda>t. (t_id t, valor_pago t)) (trabalhos d)"
    and "historico_pagamentos d' = historico_pagamentos d"
  shows "conserved d'"
proof -
  let ?f = "\<lambda>t. (t_id t, valor_pago t)"
  have key: "\<And>e. conserved e \<longleftrightarrow>
      (\<forall>p \<in> set (map ?f (trabalhos e)). snd p = paid_in_history e (fst p))"
    by (auto simp: conserved_def)
  have ph: "\<And>k. paid_in_history d' k = paid_in_history d k"
    using assms(3) by (simp add: paid_in_history_def)
  from assms(1) have "\<forall>p \<in> set (map ?f (trabalhos d)). snd p = paid_in_history d (fst p)"
    by (simp only: key)
  then have "\<forall>p \<in> set (map ?f (trabalhos d')). snd p = paid_in_history d' (fst p)"
    by (simp only: assms(2) ph)
  then show ?thesis by (simp only: key)
qed

lemma conserved_settle:
  assumes c: "conserved d"
    and t: "trabalhos d' = map (\<lambda>t. if t_id t = k then upd t else t) (trabalhos d)"
    and u: "\<And>t. t \<in> set (trabalhos d) \<Longrightarrow> t_id t = k \<Longrightarrow>
              t_id (upd t) = k \<and> valor_pago (upd t) = valor_pago t + h_valor h"
    and h: "historico_pagamentos d' = historico_pagamentos d @ [h]" "h_trabalho_id h = k"
  shows "conserved d'"
  unfolding conserved_def
proof
  fix t' assume "t' \<in> set (trabalhos d')"
  then obtain t where tin: "t \<in> set (trabalhos d)"
      and t': "t' = (if t_id t = k then upd t else t)"
    unfolding t by auto
  from c tin have ct: "valor_pago t = paid_in_history d (t_id t)"
    by (simp add: conserved_def)
  show "valor_pago t' = paid_in_history d' (t_id t')"
  proof (cases "t_id t = k")
    case True
    with u [OF tin] t' ct h show ?thesis
      by (simp add: paid_in_history_append [OF h(1)])
  next
    case False
    with t' ct h show ?thesis
      by (simp add: paid_in_history_append [OF h(1)])
  qed
qed

lemma single_Some: "single xs = Some x \<Longrightarrow> xs = [x]"
  by (cases xs rule: list.exhaust; simp add: single_def split: list.splits)

lemma single_filter_unique:
  "single (filter P xs) = Some x \<Longrightarrow> y \<in> set xs \<Longrightarrow> P y \<Longrightarrow> y = x"
proof -
  assume "single (filter P xs) = Some x" "y \<in> set xs" "P y"
  then have "filter P xs = [x]" "y \<in> set (filter P xs)" by (auto dest: single_Some)
  then show ?thesis by simp
qed

lemma db_handlePayManually:
  assumes "outages w = []"
  shows "db (handlePayManually c s w) =
     (if \<not> c then db w else
      case single (filter (\<lambda>t. t_id t = trabalho_id s) (trabalhos (db w))) of
        None \<Rightarrow> db w
      | Some t0 \<Rightarrow> (db w)\<lparr>historico_pagamentos :=
                       historico_pagamentos (db w) @ [history_row (Some (pessoa_id t0)) s],
                     trabalhos := map (\<lambda>t. if t_id t = trabalho_id s then credit (valor s) t else t)
                        (trabalhos (db w)),
                     pagamentos_semanais := filter (\<lambda>x. ps_id x \<noteq> ps_id s)
                        (pagamentos_semanais (db w))\<rparr>)"
  using assms
  by (simp add: handlePayManually_def select_trabalho_def insert_historico_def
       atualizar_valor_pago_def handleRemove_def delete_pagamento_def
       Let_def tick_def available_def history_row_def split: option.splits)

lemma conserved_handlePayManually:
  assumes "outages w = []" "conserved (db w)"
  shows "conserved (db (handlePayManually c s w))"
proof (cases "c \<and> single (filter (\<lambda>t. t_id t = trabalho_id s) (trabalhos (db w))) \<noteq> None")
  case False
  with assms show ?thesis by (auto simp: db_handlePayManually)
next
  case True
  then obtain t0 where t0: "single (filter (\<lambda>t. t_id t = trabalho_id s) (trabalhos (db w))) = Some t0"
    and c: c by auto
  show ?thesis
    unfolding db_handlePayManually [OF assms(1)] t0 option.case
    using c
    by (auto intro!: conserved_settle [OF assms(2), where k = "trabalho_id s"
        and h = "history_row (Some (pessoa_id t0)) s" and upd = "credit (valor s)"]
        simp: history_row_def credit_def Let_def)
qed

lemma conserved_settle_rows:
  "conserved d \<Longrightarrow> settle_rows ss d = Some d' \<Longrightarrow> conserved d'"
proof (induction ss arbitrary: d)
  case Nil
  then show ?case by simp
next
  case (Cons s ss)
  from Cons.prems(2) obtain t0 where
    t0: "single (filter (\<lambda>t. t_id t = trabalho_id s) (trabalhos d)) = Some t0"
    by (auto split: option.splits)
  let ?d = "d\<lparr>historico_pagamentos :=
                 historico_pagamentos d @ [history_row (Some (pessoa_id t0)) s],
               trabalhos :=
                 map (\<lambda>t. if t_id t = trabalho_id s then credit (valor s) t else t)
                   (trabalhos d)\<rparr>"
  have "conserved ?d"
    by (rule conserved_settle [OF Cons.prems(1), where k = "trabalho_id s"
        and h = "history_row (Some (pessoa_id t0)) s" and upd = "credit (valor s)"])
       (simp_all add: history_row_def credit_def Let_def)
  moreover from Cons.prems(2) t0 have "settle_rows ss ?d = Some d'" by simp
  ultimately show ?case by (rule Cons.IH)
qed

lemma conserved_pagamentos [simp]:
  "conserved (d\<lparr>pagamentos_semanais := ps\<rparr>) = conserved d"
  by (simp add: conserved_def paid_in_history_def)

lemma db_handleApprove:
  "db (handleApprove w) = db w \<or>
   (\<exists>d. settle_rows (pagamentos_semanais (db w)) (db w) = Some d \<and>
        db (handleApprove w) = d\<lparr>pagamentos_semanais := []\<rparr>)"
  by (auto simp: handleApprove_def Let_def aprovar_pagamentos_semanais_def split: option.splits)

lemma conserved_handleApprove:
  assumes "conserved (db w)"
  shows "conserved (db (handleApprove w))"
  using db_handleApprove [of w] assms by (auto dest: conserved_settle_rows)

lemma conserved_handleRemove: "conserved (db (handleRemove k w)) = conserved (db w)"
  by (simp add: handleRemove_def delete_pagamento_def)

lemma conserved_fillEmptySlots: "conserved (db (fillEmptySlots g w)) = conserved (db w)"
  by (simp add: fillEmptySlots_def preencher_slots_pagamento_def)

lemma db_loadData [simp]: "db (loadData w) = db w"
  by (simp add: loadData_def select_pessoas_def select_fila_def split: option.splits)

text \<open>
  The rows that the two drag handlers send leave out mandatory columns, so the store
  refuses them: neither handler changes a stored row.
\<close>

lemma slot_updates_incomplete: "list_all slot_complete (slot_updates R) \<Longrightarrow> slot_updates R = []"
proof -
  assume a: "list_all slot_complete (slot_updates R)"
  have "\<not> slot_complete u" if "u \<in> set (slot_updates R)" for u
    using that by (auto simp: slot_updates_def slot_complete_def split: option.splits)
  with a have "set (slot_updates R) = {}" by (auto simp: list_all_iff)
  then show ?thesis by simp
qed

lemma upsert_pagamentos_slot_updates [simp]:
  "db (snd (upsert_pagamentos (slot_updates R) w)) = db w"
  by (auto simp: upsert_pagamentos_def dest: slot_updates_incomplete)

lemma fila_updates_incomplete: "list_all trabalho_complete (fila_updates R) \<Longrightarrow> fila_updates R = []"
proof -
  assume a: "list_all trabalho_complete (fila_updates R)"
  have "\<not> trabalho_complete u" if "u \<in> set (fila_updates R)" for u
    using that by (auto simp: fila_updates_def trabalho_complete_def)
  with a have "set (fila_updates R) = {}" by (auto simp: list_all_iff)
  then show ?thesis by simp
qed

lemma upsert_trabalhos_fila_updates [simp]:
  "db (snd (upsert_trabalhos (fila_updates R) w)) = db w"
  by (auto simp: upsert_trabalhos_def dest: fila_updates_incomplete)

lemma db_DragSlot: "db (Dashboard_handleDragEnd a ov w) = db (w :: World)"
proof -
  have "db w2 = db w1" if "upsert_pagamentos (slot_updates R) w1 = (b, w2)" for R w1 b w2
    using upsert_pagamentos_slot_updates [of R w1] that by simp
  then show ?thesis
    by (auto simp: Dashboard_handleDragEnd_def Let_def notify_def
        split: option.splits prod.splits bool.splits)
qed

lemma db_DragTrabalho: "db (Trabalhos_handleDragEnd a ov w) = db (w :: World)"
proof -
  have "db w2 = db w1" if "upsert_trabalhos (fila_updates R) w1 = (b, w2)" for R w1 b w2
    using upsert_trabalhos_fila_updates [of R w1] that by simp
  then show ?thesis
    by (auto simp: Trabalhos_handleDragEnd_def Let_def notify_def
        split: option.splits prod.splits bool.splits)
qed

lemma conserved_handle:
  "outages w = [] \<Longrightarrow> conserved (db w) \<Longrightarrow> e \<noteq> Approve2 \<Longrightarrow> conserved (db (handle e w))"
  by (cases e)
     (simp_all add: conserved_handleRemove conserved_fillEmptySlots db_DragSlot
        db_DragTrabalho conserved_handlePayManually conserved_handleApprove)

text \<open>
  A run is any list of calls of the handlers. Take the runs that settle through the
  stored procedures: manual settlement, bulk approval as the component defines it, and
  the other handlers in between (loading, filling, removing, reordering). On a store
  that answers every request, if each work item's paid amount equals the sum of the
  history amounts that reference it before the run, it does so after the run. (For the
  approval loop see \<open>conserved_handleApprove2\<close>.)
\<close>

lemma run_conserved:
  assumes "outages w = []" and "conserved (db w)" and "Approve2 \<notin> set es"
  shows "conserved (db (run es w))"
  using assms unfolding run_def
proof (induction es arbitrary: w)
  case Nil
  then show ?case by simp
next
  case (Cons e es)
  from Cons.prems have e: "e \<noteq> Approve2" and es: "Approve2 \<notin> set es" by auto
  from Cons.prems e es have "outages (handle e w) = []" "conserved (db (handle e w))"
      "Approve2 \<notin> set es"
    by (simp_all add: conserved_handle outages_handle)
  then have "conserved (db (fold handle es (handle e w)))" by (rule Cons.IH)
  then show ?case by simp
qed

lemma run_conserved_example:
  "outages ex_two = [] \<and> conserved (db ex_two) \<and>
   conserved (db (run [PayManually True (ex_slot ''s1'' ''t1'' 10000 0), LoadSlots, Approve] ex_two)) \<and>
   map valor_pago
     (trabalhos (db (run [PayManually True (ex_slot ''s1'' ''t1'' 10000 0), LoadSlots, Approve] ex_two)))
     = [10000, 5000] \<and>
   map h_valor (historico_pagamentos
      (db (run [PayManually True (ex_slot ''s1'' ''t1'' 10000 0), LoadSlots, Approve] ex_two)))
     = [2000, 10000, 3000]"
proof -
  let ?es = "[PayManually True (ex_slot ''s1'' ''t1'' 10000 0), LoadSlots, Approve]"
  have a: "outages ex_two = []" by code_simp
  have b: "conserved (db ex_two)" by code_simp
  have n: "Approve2 \<notin> set ?es" by simp
  have c: "map valor_pago (trabalhos (db (run ?es ex_two))) = [10000, 5000]" by code_simp
  have d: "map h_valor (historico_pagamentos (db (run ?es ex_two))) = [2000, 10000, 3000]"
    by code_simp
  from run_conserved [OF a b n] a b c d show ?thesis by blast
qed

text \<open>
  Claim C3, evaluated where a balance update fails. In both states every work item's
  paid amount equals its history total (both 0) before the call. In the manual
  settlement the call of \<^verbatim>\<open>atualizar_valor_pago\<close> fails; in the approval loop the update of the
  first work item fails and every other request succeeds. Afterwards the history
  records 100.00 for the first work item and its paid amount is still 0.
\<close>

theorem conservation_lost_on_failed_update:
  "map valor_pago (trabalhos (db ex_manual_fault)) = [0] \<and>
   paid_in_history (db ex_manual_fault) ''t1'' = 0 \<and>
   map valor_pago
     (trabalhos (db (handlePayManually True (ex_slot ''s1'' ''t1'' 10000 0) ex_manual_fault))) =
     [0] \<and>
   paid_in_history
     (db (handlePayManually True (ex_slot ''s1'' ''t1'' 10000 0) ex_manual_fault)) ''t1'' =
     10000 \<and>
   map valor_pago (trabalhos (db ex_loop_fault)) = [0, 0] \<and>
   map (paid_in_history (db ex_loop_fault)) [''t1'', ''t2''] = [0, 0] \<and>
   map valor_pago (trabalhos (db (handleApprove2 ex_loop_fault))) = [0, 5000] \<and>
   map (paid_in_history (db (handleApprove2 ex_loop_fault))) [''t1'', ''t2''] = [10000, 5000] \<and>
   pagamentos_semanais (db (handleApprove2 ex_loop_fault)) = [] \<and>
   toasts (handleApprove2 ex_loop_fault) = [ToastSuccess ''Pagamentos aprovados com sucesso!'']"
  by code_simp

section \<open>The balance of a work item\<close>

lemma fits_tail: "fits (s # ss) d \<Longrightarrow> fits ss d"
  by (simp add: fits_def)

text \<open>
  One settled slot: the work item it is bound to is replaced, the others stay. A
  property \<open>I\<close> of the work items that the replacement keeps is kept by the step, and
  the remaining slots still fit.
\<close>

lemma fits_step:
  assumes inv: "\<forall>t \<in> set (trabalhos d). I t"
    and fit: "fits (s # ss) d"
    and tr: "trabalhos d' = map (\<lambda>t. if t_id t = trabalho_id s then upd t else t) (trabalhos d)"
    and upd: "\<And>t. t \<in> set (trabalhos d) \<Longrightarrow> t_id t = trabalho_id s \<Longrightarrow> I t \<Longrightarrow>
               0 \<le> valor s \<Longrightarrow> valor s \<le> valor_total t - valor_pago t \<Longrightarrow>
               t_id (upd t) = t_id t \<and> I (upd t)"
  shows "(\<forall>t \<in> set (trabalhos d'). I t) \<and> fits ss d'"
proof
  from fit have v0: "0 \<le> valor s"
    and vr: "\<And>t. t \<in> set (trabalhos d) \<Longrightarrow> t_id t = trabalho_id s \<Longrightarrow>
                valor s \<le> valor_total t - valor_pago t"
    by (auto simp: fits_def)
  show "\<forall>t \<in> set (trabalhos d'). I t"
  proof
    fix t' assume "t' \<in> set (trabalhos d')"
    then obtain t where tin: "t \<in> set (trabalhos d)"
      and t': "t' = (if t_id t = trabalho_id s then upd t else t)"
      unfolding tr by auto
    from inv tin have bt: "I t" by simp
    show "I t'"
    proof (cases "t_id t = trabalho_id s")
      case True
      from upd [OF tin True bt v0 vr [OF tin True]] t' True show ?thesis by simp
    next
      case False
      with t' bt show ?thesis by simp
    qed
  qed
  show "fits ss d'"
    unfolding fits_def
  proof (intro conjI ballI impI)
    from fit show "distinct (map trabalho_id ss)" by (simp add: fits_def)
  next
    fix x assume "x \<in> set ss"
    with fit show "0 \<le> valor x" by (simp add: fits_def)
  next
    fix x t' assume x: "x \<in> set ss" and t'in: "t' \<in> set (trabalhos d')"
      and id: "t_id t' = trabalho_id x"
    from fit have "trabalho_id s \<notin> set (map trabalho_id ss)" by (simp add: fits_def)
    moreover from x have "trabalho_id x \<in> set (map trabalho_id ss)" by simp
    ultimately have ne: "trabalho_id x \<noteq> trabalho_id s" by metis
    from t'in obtain t where tin: "t \<in> set (trabalhos d)"
      and t': "t' = (if t_id t = trabalho_id s then upd t else t)"
      unfolding tr by auto
    have "t_id t \<noteq> trabalho_id s"
    proof
      assume eq: "t_id t = trabalho_id s"
      from inv tin have "I t" by simp
      from upd [OF tin eq this v0 vr [OF tin eq]] t' eq id ne show False by simp
    qed
    with t' have "t' = t" by simp
    with fit x tin id show "valor x \<le> valor_total t' - valor_pago t'"
      by (simp add: fits_def)
  qed
qed

lemma balanced_credit:
  assumes "balanced t" "0 \<le> v" "v \<le> valor_total t - valor_pago t"
  shows "t_id (credit v t) = t_id t \<and> balanced (credit v t)"
  using assms by (auto simp: credit_def Let_def balanced_def)

lemma sound_credit:
  assumes "sound t" "0 \<le> v" "v \<le> valor_total t - valor_pago t"
  shows "t_id (credit v t) = t_id t \<and> sound (credit v t)"
  using assms by (auto simp: credit_def Let_def sound_def within_total_def flag_sound_def)

text \<open>
  The update of the approval loop, on a work item within its total and a slot that
  fits: the store keeps the exact sum, and the flag is set only when the sum reaches
  the total.
\<close>

lemma sound_update:
  assumes s: "sound t" and v: "0 \<le> v" "v \<le> valor_total t - valor_pago t"
  shows "stored (js_add (js_number (valor_pago t)) (js_number v)) = valor_pago t + v \<and>
         sound (t\<lparr>valor_pago := stored (js_add (js_number (valor_pago t)) (js_number v)),
                  concluido := (js_number (valor_total t) \<le>
                                js_add (js_number (valor_pago t)) (js_number v))\<rparr>)"
proof -
  from s have p: "0 \<le> valor_pago t" and r: "valor_total t < 10 ^ 10"
    by (simp_all add: sound_def within_total_def)
  from v r have r': "valor_pago t + v < 10 ^ 10" by linarith
  have st: "stored (js_add (js_number (valor_pago t)) (js_number v)) = valor_pago t + v"
    by (rule stored_sum [OF p v(1) r'])
  have fl: "valor_total t \<le> valor_pago t + v"
    if "js_number (valor_total t) \<le> js_add (js_number (valor_pago t)) (js_number v)"
  proof (rule ccontr)
    assume "\<not> valor_total t \<le> valor_pago t + v"
    then have "valor_pago t + v < valor_total t" by simp
    from js_add_below [OF p v(1) this r] that show False by simp
  qed
  from p v r fl show ?thesis
    by (simp add: st sound_def within_total_def flag_sound_def)
qed

lemma trabalhos_approve_slot:
  "trabalhos (db (approve_slot s w)) = trabalhos (db w) \<or>
   (\<exists>t0. single (filter (\<lambda>t. t_id t = trabalho_id s) (trabalhos (db w))) = Some t0 \<and>
      trabalhos (db (approve_slot s w)) =
        map (\<lambda>t. if t_id t = trabalho_id s
              then t\<lparr>valor_pago := stored (js_add (js_number (valor_pago t0)) (js_number (valor s))),
                     concluido := (js_number (valor_total t0) \<le>
                                   js_add (js_number (valor_pago t0)) (js_number (valor s)))\<rparr>
              else t) (trabalhos (db w)))"
  by (auto simp: approve_slot_def select_trabalho_def insert_historico_def update_trabalho_def
       Let_def split: option.splits if_splits)

lemma trabalhos_handlePayManually:
  "trabalhos (db (handlePayManually c s w)) = trabalhos (db w) \<or>
   trabalhos (db (handlePayManually c s w)) =
     map (\<lambda>t. if t_id t = trabalho_id s then credit (valor s) t else t) (trabalhos (db w))"
  by (auto simp: handlePayManually_def select_trabalho_def insert_historico_def
       atualizar_valor_pago_def handleRemove_def delete_pagamento_def Let_def
       split: option.splits if_splits)

lemma trabalhos_handleApprove2:
  "trabalhos (db (handleApprove2 w)) = trabalhos (db w) \<or>
   trabalhos (db (handleApprove2 w)) =
     trabalhos (db (fold approve_slot (filled (slots w)) (w\<lparr>approving := True\<rparr>)))"
  by (auto simp: handleApprove2_def delete_all_pagamentos_def Let_def)

lemma sound_approve_slot:
  assumes inv: "\<forall>t \<in> set (trabalhos (db w)). sound t"
    and fit: "fits (s # ss) (db w)"
  shows "(\<forall>t \<in> set (trabalhos (db (approve_slot s w))). sound t) \<and>
         fits ss (db (approve_slot s w))"
  using trabalhos_approve_slot [of s w]
proof (elim disjE exE conjE)
  assume same: "trabalhos (db (approve_slot s w)) = trabalhos (db w)"
  with inv fits_tail [OF fit] show ?thesis by (simp add: fits_def)
next
  fix t0 :: Trabalho
  let ?x = "js_add (js_number (valor_pago t0)) (js_number (valor s))"
  let ?upd = "\<lambda>t. t\<lparr>valor_pago := stored ?x, concluido := (js_number (valor_total t0) \<le> ?x)\<rparr>"
  assume t0: "single (filter (\<lambda>t. t_id t = trabalho_id s) (trabalhos (db w))) = Some t0"
    and tr: "trabalhos (db (approve_slot s w)) =
      map (\<lambda>t. if t_id t = trabalho_id s then ?upd t else t) (trabalhos (db w))"
  show ?thesis
  proof (rule fits_step [OF inv fit tr])
    fix t assume tin: "t \<in> set (trabalhos (db w))" and id: "t_id t = trabalho_id s"
      and st: "sound t" and v: "0 \<le> valor s" "valor s \<le> valor_total t - valor_pago t"
    from t0 tin id have eq: "t = t0" by (auto dest: single_filter_unique)
    from sound_update [OF st v] have "sound (?upd t)" unfolding eq by blast
    then show "t_id (?upd t) = t_id t \<and> sound (?upd t)" by simp
  qed
qed

lemma sound_fold_approve_slot:
  "\<forall>t \<in> set (trabalhos (db w)). sound t \<Longrightarrow> fits ss (db w) \<Longrightarrow>
   \<forall>t \<in> set (trabalhos (db (fold approve_slot ss w))). sound t"
proof (induction ss arbitrary: w)
  case Nil
  then show ?case by simp
next
  case (Cons s ss)
  from sound_approve_slot [OF Cons.prems]
  have b: "\<forall>t \<in> set (trabalhos (db (approve_slot s w))). sound t"
    and f: "fits ss (db (approve_slot s w))" by blast+
  from Cons.IH [OF b f] show ?case by simp
qed

lemma settle_rows_keeps:
  assumes upd: "\<And>t v. I t \<Longrightarrow> 0 \<le> v \<Longrightarrow> v \<le> valor_total t - valor_pago t \<Longrightarrow>
                 t_id (credit v t) = t_id t \<and> I (credit v t)"
  shows "\<forall>t \<in> set (trabalhos d). I t \<Longrightarrow> fits ss d \<Longrightarrow> settle_rows ss d = Some d' \<Longrightarrow>
         \<forall>t \<in> set (trabalhos d'). I t"
proof (induction ss arbitrary: d)
  case Nil
  then show ?case by simp
next
  case (Cons s ss)
  from Cons.prems(3) obtain t0 where
    t0: "single (filter (\<lambda>t. t_id t = trabalho_id s) (trabalhos d)) = Some t0"
    by (auto split: option.splits)
  let ?d = "d\<lparr>historico_pagamentos :=
                 historico_pagamentos d @ [history_row (Some (pessoa_id t0)) s],
               trabalhos :=
                 map (\<lambda>t. if t_id t = trabalho_id s then credit (valor s) t else t)
                   (trabalhos d)\<rparr>"
  have "(\<forall>t \<in> set (trabalhos ?d). I t) \<and> fits ss ?d"
    by (rule fits_step [OF Cons.prems(1,2), where upd = "credit (valor s)"])
       (simp_all add: upd)
  moreover from Cons.prems(3) t0 have "settle_rows ss ?d = Some d'" by simp
  ultimately show ?case using Cons.IH by blast
qed

lemma handlePayManually_keeps:
  assumes upd: "\<And>t v. I t \<Longrightarrow> 0 \<le> v \<Longrightarrow> v \<le> valor_total t - valor_pago t \<Longrightarrow>
                 t_id (credit v t) = t_id t \<and> I (credit v t)"
    and inv: "\<forall>t \<in> set (trabalhos (db w)). I t"
    and f: "fits [slot] (db w)"
  shows "\<forall>t \<in> set (trabalhos (db (handlePayManually confirmed slot w))). I t"
  using trabalhos_handlePayManually [of confirmed slot w]
proof
  assume "trabalhos (db (handlePayManually confirmed slot w)) = trabalhos (db w)"
  with inv show ?thesis by simp
next
  assume tr: "trabalhos (db (handlePayManually confirmed slot w)) =
    map (\<lambda>t. if t_id t = trabalho_id slot then credit (valor slot) t else t)
      (trabalhos (db w))"
  have "(\<forall>t \<in> set (trabalhos (db (handlePayManually confirmed slot w))). I t) \<and>
        fits [] (db (handlePayManually confirmed slot w))"
    by (rule fits_step [OF inv f tr]) (simp add: upd)
  then show ?thesis by blast
qed

lemma handleApprove_keeps:
  assumes upd: "\<And>t v. I t \<Longrightarrow> 0 \<le> v \<Longrightarrow> v \<le> valor_total t - valor_pago t \<Longrightarrow>
                 t_id (credit v t) = t_id t \<and> I (credit v t)"
    and inv: "\<forall>t \<in> set (trabalhos (db w)). I t"
    and f: "fits (pagamentos_semanais (db w)) (db w)"
  shows "\<forall>t \<in> set (trabalhos (db (handleApprove w))). I t"
  using db_handleApprove [of w]
proof (elim disjE exE conjE)
  assume "db (handleApprove w) = db w"
  with inv show ?thesis by simp
next
  fix d assume s: "settle_rows (pagamentos_semanais (db w)) (db w) = Some d"
    and d: "db (handleApprove w) = d\<lparr>pagamentos_semanais := []\<rparr>"
  from settle_rows_keeps [of I, OF upd inv f s] have "\<forall>t \<in> set (trabalhos d). I t" by blast
  with d show ?thesis by simp
qed

text \<open>
  The approval loop on a store that answers every request: when the work items are
  within their totals and the slots of the board fit, the history and the paid amounts
  stay equal.
\<close>

lemma approve_slot_db:
  assumes "outages w = []"
  shows "db (approve_slot s w) =
     (case single (filter (\<lambda>t. t_id t = trabalho_id s) (trabalhos (db w))) of
        None \<Rightarrow> db w
      | Some t0 \<Rightarrow>
          if \<bar>stored (js_add (js_number (valor_pago t0)) (js_number (valor s)))\<bar> < 10 ^ 10
          then (db w)\<lparr>historico_pagamentos :=
                       historico_pagamentos (db w) @ [history_row (Some (pessoa_id t0)) s],
                     trabalhos := map (\<lambda>t. if t_id t = trabalho_id s
                          then t\<lparr>valor_pago :=
                                  stored (js_add (js_number (valor_pago t0)) (js_number (valor s))),
                                concluido := (js_number (valor_total t0) \<le>
                                  js_add (js_number (valor_pago t0)) (js_number (valor s)))\<rparr>
                          else t) (trabalhos (db w))\<rparr>
          else (db w)\<lparr>historico_pagamentos :=
                       historico_pagamentos (db w) @ [history_row (Some (pessoa_id t0)) s]\<rparr>)"
  using assms
  by (simp add: approve_slot_def select_trabalho_def insert_historico_def update_trabalho_def
       Let_def tick_def available_def history_row_def split: option.splits)

lemma conserved_approve_slot:
  assumes out: "outages w = []" and c: "conserved (db w)"
    and inv: "\<forall>t \<in> set (trabalhos (db w)). sound t"
    and fit: "fits (s # ss) (db w)"
  shows "conserved (db (approve_slot s w))"
proof (cases "single (filter (\<lambda>t. t_id t = trabalho_id s) (trabalhos (db w)))")
  case None
  with out c show ?thesis by (simp add: approve_slot_db)
next
  case (Some t0)
  let ?x = "js_add (js_number (valor_pago t0)) (js_number (valor s))"
  from single_Some [OF Some] have "t0 \<in> set (filter (\<lambda>t. t_id t = trabalho_id s) (trabalhos (db w)))"
    by simp
  then have tin: "t0 \<in> set (trabalhos (db w))" and id: "t_id t0 = trabalho_id s" by simp_all
  from inv tin have st: "sound t0" by simp
  from fit tin id have v: "0 \<le> valor s" "valor s \<le> valor_total t0 - valor_pago t0"
    by (auto simp: fits_def)
  from sound_update [OF st v] have sx: "stored ?x = valor_pago t0 + valor s" by blast
  from st v have "\<bar>valor_pago t0 + valor s\<bar> < 10 ^ 10"
    by (simp add: sound_def within_total_def)
  with sx have rg: "\<bar>stored ?x\<bar> < 10 ^ 10" by simp
  show ?thesis
    unfolding approve_slot_db [OF out] Some option.case if_P [OF rg]
  proof (rule conserved_settle [OF c, where k = "trabalho_id s"
        and h = "history_row (Some (pessoa_id t0)) s"])
    fix t assume "t \<in> set (trabalhos (db w))" "t_id t = trabalho_id s"
    with Some have "t = t0" by (auto dest: single_filter_unique)
    with id sx show "t_id (t\<lparr>valor_pago := stored ?x,
                  concluido := js_number (valor_total t0) \<le> ?x\<rparr>) = trabalho_id s \<and>
          valor_pago (t\<lparr>valor_pago := stored ?x,
                  concluido := js_number (valor_total t0) \<le> ?x\<rparr>) =
            valor_pago t + h_valor (history_row (Some (pessoa_id t0)) s)"
      by (simp add: history_row_def)
  qed (simp_all add: history_row_def)
qed

lemma conserved_fold_approve_slot:
  "outages w = [] \<Longrightarrow> conserved (db w) \<Longrightarrow> \<forall>t \<in> set (trabalhos (db w)). sound t \<Longrightarrow>
   fits ss (db w) \<Longrightarrow> conserved (db (fold approve_slot ss w))"
proof (induction ss arbitrary: w)
  case Nil
  then show ?case by simp
next
  case (Cons s ss)
  from sound_approve_slot [OF Cons.prems(3,4)]
  have b: "\<forall>t \<in> set (trabalhos (db (approve_slot s w))). sound t"
    and f: "fits ss (db (approve_slot s w))" by blast+
  have o: "outages (approve_slot s w) = []" using Cons.prems(1) by (rule outages_approve_slot)
  have c: "conserved (db (approve_slot s w))" by (rule conserved_approve_slot [OF Cons.prems])
  from Cons.IH [OF o c b f] show ?case by simp
qed

lemma db_handleApprove2:
  "outages w = [] \<Longrightarrow>
   db (handleApprove2 w) =
     (if filled (slots w) = [] then db w
      else (db (fold approve_slot (filled (slots w)) (w\<lparr>approving := True\<rparr>)))
             \<lparr>pagamentos_semanais :=
                filter (\<lambda>s. ps_id s = ''00000000-0000-0000-0000-000000000000'')
                  (pagamentos_semanais
                     (db (fold approve_slot (filled (slots w)) (w\<lparr>approving := True\<rparr>))))\<rparr>)"
  by (simp add: handleApprove2_def Let_def delete_all_pagamentos_def
       outages_fold_approve_slot reliable_available)

lemma conserved_handleApprove2:
  assumes "outages w = []" "conserved (db w)" "\<forall>t \<in> set (trabalhos (db w)). sound t"
    and "fits (filled (slots w)) (db w)"
  shows "conserved (db (handleApprove2 w))"
  using assms
  by (simp add: db_handleApprove2 conserved_fold_approve_slot)

lemma conserved_handleApprove2_example:
  "outages ex_round = [] \<and> conserved (db ex_round) \<and>
   list_all sound (trabalhos (db ex_round)) \<and> fits (filled (slots ex_round)) (db ex_round) \<and>
   conserved (db (handleApprove2 ex_round)) \<and>
   map h_valor (historico_pagamentos (db (handleApprove2 ex_round))) = [10010, 20020]"
proof -
  have a: "outages ex_round = []" by code_simp
  have b: "conserved (db ex_round)" by code_simp
  have c: "list_all sound (trabalhos (db ex_round))" by code_simp
  have d: "fits (filled (slots ex_round)) (db ex_round)" by code_simp
  have e: "map h_valor (historico_pagamentos (db (handleApprove2 ex_round))) = [10010, 20020]"
    by code_simp
  from c have c': "\<forall>t \<in> set (trabalhos (db ex_round)). sound t" by (simp add: list_all_iff)
  from conserved_handleApprove2 [OF a b c' d] a b c d e show ?thesis by blast
qed

text \<open>
  Claim C4, as amended. Take a state in which every work item has
  \<open>0 \<le> paid \<le> total\<close>, a completion flag that is set only if \<open>paid \<ge> total\<close>, and a
  total in the range of the store's amounts. Whether or not requests to the store
  fail, a settlement (manual, or bulk in either version) keeps this for every work
  item, provided the settled slots fit: no two of them are bound to the same work item
  and the amount of each is between 0 and the remaining balance of its work item. The
  two settlements that go through a stored procedure (manual, and bulk as the
  component defines it) keep \<open>completed = (paid \<ge> total)\<close> as well. The amount is
  added as it is, so without the proviso the paid amount can pass the total.
\<close>

theorem settlement_within_total:
  assumes "\<forall>t \<in> set (trabalhos (db w)). sound t"
  shows "(fits [slot] (db w) \<longrightarrow>
            (\<forall>t \<in> set (trabalhos (db (handlePayManually confirmed slot w))). sound t)) \<and>
         (fits (filled (slots w)) (db w) \<longrightarrow>
            (\<forall>t \<in> set (trabalhos (db (handleApprove2 w))). sound t)) \<and>
         (fits (pagamentos_semanais (db w)) (db w) \<longrightarrow>
            (\<forall>t \<in> set (trabalhos (db (handleApprove w))). sound t)) \<and>
         ((\<forall>t \<in> set (trabalhos (db w)). balanced t) \<and> fits [slot] (db w) \<longrightarrow>
            (\<forall>t \<in> set (trabalhos (db (handlePayManually confirmed slot w))). balanced t)) \<and>
         ((\<forall>t \<in> set (trabalhos (db w)). balanced t) \<and>
          fits (pagamentos_semanais (db w)) (db w) \<longrightarrow>
            (\<forall>t \<in> set (trabalhos (db (handleApprove w))). balanced t))"
proof (intro conjI impI)
  assume f: "fits [slot] (db w)"
  show "\<forall>t \<in> set (trabalhos (db (handlePayManually confirmed slot w))). sound t"
    by (rule handlePayManually_keeps [of sound, OF sound_credit assms f])
next
  assume f: "fits (filled (slots w)) (db w)"
  have "\<forall>t \<in> set (trabalhos (db (fold approve_slot (filled (slots w)) (w\<lparr>approving := True\<rparr>)))).
          sound t"
    using assms f by (intro sound_fold_approve_slot) simp_all
  with assms trabalhos_handleApprove2 [of w]
  show "\<forall>t \<in> set (trabalhos (db (handleApprove2 w))). sound t"
    by auto
next
  assume f: "fits (pagamentos_semanais (db w)) (db w)"
  show "\<forall>t \<in> set (trabalhos (db (handleApprove w))). sound t"
    by (rule handleApprove_keeps [of sound, OF sound_credit assms f])
next
  assume "(\<forall>t \<in> set (trabalhos (db w)). balanced t) \<and> fits [slot] (db w)"
  then have b: "\<forall>t \<in> set (trabalhos (db w)). balanced t" and f: "fits [slot] (db w)"
    by blast+
  show "\<forall>t \<in> set (trabalhos (db (handlePayManually confirmed slot w))). balanced t"
    by (rule handlePayManually_keeps [of balanced, OF balanced_credit b f])
next
  assume "(\<forall>t \<in> set (trabalhos (db w)). balanced t) \<and>
          fits (pagamentos_semanais (db w)) (db w)"
  then have b: "\<forall>t \<in> set (trabalhos (db w)). balanced t"
    and f: "fits (pagamentos_semanais (db w)) (db w)"
    by blast+
  show "\<forall>t \<in> set (trabalhos (db (handleApprove w))). balanced t"
    by (rule handleApprove_keeps [of balanced, OF balanced_credit b f])
qed

theorem settlement_within_total_witness:
  "list_all sound (trabalhos (db ex_two)) \<and>
   list_all balanced (trabalhos (db ex_two)) \<and>
   fits [ex_slot ''s1'' ''t1'' 10000 0] (db ex_two) \<and>
   fits (filled (slots ex_two)) (db ex_two) \<and>
   fits (pagamentos_semanais (db ex_two)) (db ex_two) \<and>
   list_all sound
     (trabalhos (db (handlePayManually True (ex_slot ''s1'' ''t1'' 10000 0) ex_two))) \<and>
   list_all sound (trabalhos (db (handleApprove2 ex_two))) \<and>
   list_all sound (trabalhos (db (handleApprove ex_two))) \<and>
   list_all balanced
     (trabalhos (db (handlePayManually True (ex_slot ''s1'' ''t1'' 10000 0) ex_two))) \<and>
   list_all balanced (trabalhos (db (handleApprove ex_two))) \<and>
   map valor_pago (trabalhos (db (handleApprove2 ex_two))) = [10000, 5000] \<and>
   map concluido (trabalhos (db (handleApprove2 ex_two))) = [True, True]"
proof -
  have s: "list_all sound (trabalhos (db ex_two))" by code_simp
  have b: "list_all balanced (trabalhos (db ex_two))" by code_simp
  have f1: "fits [ex_slot ''s1'' ''t1'' 10000 0] (db ex_two)" by code_simp
  have f2: "fits (filled (slots ex_two)) (db ex_two)" by code_simp
  have f3: "fits (pagamentos_semanais (db ex_two)) (db ex_two)" by code_simp
  have v: "map valor_pago (trabalhos (db (handleApprove2 ex_two))) = [10000, 5000]"
    by code_simp
  have c: "map concluido (trabalhos (db (handleApprove2 ex_two))) = [True, True]"
    by code_simp
  from s have s': "\<forall>t \<in> set (trabalhos (db ex_two)). sound t"
    by (simp add: list_all_iff)
  from b have b': "\<forall>t \<in> set (trabalhos (db ex_two)). balanced t"
    by (simp add: list_all_iff)
  from settlement_within_total [OF s', of "ex_slot ''s1'' ''t1'' 10000 0" True] b' f1 f2 f3
  have "list_all sound
     (trabalhos (db (handlePayManually True (ex_slot ''s1'' ''t1'' 10000 0) ex_two))) \<and>
   list_all sound (trabalhos (db (handleApprove2 ex_two))) \<and>
   list_all sound (trabalhos (db (handleApprove ex_two))) \<and>
   list_all balanced
     (trabalhos (db (handlePayManually True (ex_slot ''s1'' ''t1'' 10000 0) ex_two))) \<and>
   list_all balanced (trabalhos (db (handleApprove ex_two)))"
    by (simp add: list_all_iff)
  with s b f1 f2 f3 v c show ?thesis by blast
qed

text \<open>
  Claim C4 as stated fails. The work item has 60.00 of 100.00 paid and satisfies the
  invariant; its slot carries 100.00, more than the remaining 40.00. Each of the three
  settlements takes the paid amount to 160.00.
\<close>

theorem settlement_overpays:
  "outages ex_over = [] \<and>
   map balanced (trabalhos (db ex_over)) = [True] \<and>
   map valor_pago (trabalhos (db (handleApprove2 ex_over))) = [16000] \<and>
   map valor_total (trabalhos (db (handleApprove2 ex_over))) = [10000] \<and>
   map balanced (trabalhos (db (handleApprove2 ex_over))) = [False] \<and>
   map balanced (trabalhos (db (handleApprove ex_over))) = [False] \<and>
   map balanced
     (trabalhos (db (handlePayManually True (ex_slot ''s1'' ''t1'' 10000 0) ex_over))) = [False]"
  by code_simp

text \<open>
  Why the completion flag of the approval loop is left out above. The work item has
  100.10 of 300.30 paid, its slot carries the remaining 200.20, and every request
  succeeds. The loop stores 300.30 as paid, the whole total, and leaves the work item
  pending: on the client's numbers the sum is 300.29999999999995, below 300.30.
\<close>

lemma handleApprove2_pending_when_paid:
  "outages ex_round = [] \<and>
   map balanced (trabalhos (db ex_round)) = [True] \<and>
   fits (filled (slots ex_round)) (db ex_round) \<and>
   map valor_pago (trabalhos (db (handleApprove2 ex_round))) = [30030] \<and>
   map valor_total (trabalhos (db (handleApprove2 ex_round))) = [30030] \<and>
   map concluido (trabalhos (db (handleApprove2 ex_round))) = [False] \<and>
   map concluido (trabalhos (db (handleApprove ex_round))) = [True]"
  by code_simp

section \<open>Reordering\<close>

lemma findIndex_Some: "findIndex P xs = Some i \<Longrightarrow> i < length xs \<and> P (xs ! i)"
proof (induction xs arbitrary: i)
  case Nil
  then show ?case by simp
next
  case (Cons x xs)
  then show ?case by (cases "P x") auto
qed

lemma length_arrayMove [simp]: "i < length xs \<Longrightarrow> length (arrayMove xs i j) = length xs"
  by (auto simp: arrayMove_def Let_def)

lemma mset_insert_at: "mset (take j ys @ x # drop j ys) = add_mset x (mset ys)"
proof -
  have "mset (take j ys @ x # drop j ys) = add_mset x (mset (take j ys) + mset (drop j ys))"
    by simp
  also have "mset (take j ys) + mset (drop j ys) = mset (take j ys @ drop j ys)"
    by (simp only: mset_append)
  finally show ?thesis by (simp only: append_take_drop_id)
qed

lemma mset_remove_at:
  "i < length xs \<Longrightarrow> add_mset (xs ! i) (mset (take i xs @ drop (Suc i) xs)) = mset xs"
proof -
  assume "i < length xs"
  then have "mset xs = mset (take i xs @ xs ! i # drop (Suc i) xs)"
    by (simp only: id_take_nth_drop [symmetric])
  then show ?thesis by simp
qed

lemma mset_arrayMove: "i < length xs \<Longrightarrow> mset (arrayMove xs i j) = mset xs"
  unfolding arrayMove_def Let_def by (simp only: mset_insert_at mset_remove_at)











text \<open>
  What the store does with the rows of a reorder: it refuses them, as they leave out
  the mandatory columns of a work item. The third pending item is dropped on the first;
  the page shows the error and loads the list again, and the ranks and the order stay
  as they were.
\<close>

lemma reorderBacklog_refused:
  "outages ex_gap = [] \<and>
   map tu_valor_total (fila_updates (arrayMove (fila ex_gap) 2 0)) = [None, None, None] \<and>
   fst (upsert_trabalhos (fila_updates (arrayMove (fila ex_gap) 2 0))
          (ex_gap\<lparr>fila := arrayMove (fila ex_gap) 2 0\<rparr>)) = True \<and>
   map prioridade (backlog (db (Trabalhos_handleDragEnd ''t3'' (Some ''t1'') ex_gap))) =
     [1, 2, 5] \<and>
   map t_id (backlog (db (Trabalhos_handleDragEnd ''t3'' (Some ''t1'') ex_gap))) =
     [''t1'', ''t2'', ''t3''] \<and>
   map t_id (fila (Trabalhos_handleDragEnd ''t3'' (Some ''t1'') ex_gap)) =
     [''t1'', ''t2'', ''t3''] \<and>
   toasts (Trabalhos_handleDragEnd ''t3'' (Some ''t1'') ex_gap) =
     [ToastError ''Erro ao reordenar trabalhos'']"
  by code_simp

section \<open>Filling the board\<close>

lemma fill_rows_nth:
  "k < length (fill_rows g d) \<Longrightarrow>
   fill_rows g d ! k = new_slot d (g k) (empty_positions d ! k) (candidates d ! k)"
  by (simp add: fill_rows_def nth_enumerate_eq)

lemma length_fill_rows:
  "length (fill_rows g d) = min (length (empty_positions d)) (length (candidates d))"
  by (simp add: fill_rows_def)

lemma fill_rows_trabalho_id:
  "map trabalho_id (fill_rows g d) = map t_id (take (length (fill_rows g d)) (candidates d))"
  by (rule nth_equalityI) (simp_all add: fill_rows_nth new_slot_def length_fill_rows)

lemma fill_rows_valor:
  "map valor (fill_rows g d) =
     map (\<lambda>t. valor_total t - valor_pago t) (take (length (fill_rows g d)) (candidates d))"
  by (rule nth_equalityI) (simp_all add: fill_rows_nth new_slot_def length_fill_rows)

lemma fill_rows_posicao:
  "map posicao (fill_rows g d) = take (length (fill_rows g d)) (empty_positions d)"
  by (rule nth_equalityI) (simp_all add: fill_rows_nth new_slot_def length_fill_rows)

lemma sorted_backlog: "sorted (map prioridade (backlog d))"
  by (simp add: backlog_def)

lemma sorted_candidates: "sorted (map prioridade (candidates d))"
  unfolding candidates_def using sorted_backlog by (rule sorted_filter)

lemma strict_candidates:
  assumes "distinct (map prioridade (filter (\<lambda>t. \<not> concluido t) (trabalhos d)))"
  shows "sorted_wrt (<) (map prioridade (candidates d))"
proof -
  have "mset (map prioridade (backlog d)) =
        mset (map prioridade (filter (\<lambda>t. \<not> concluido t) (trabalhos d)))"
    by (simp add: backlog_def)
  from mset_eq_imp_distinct_iff [OF this] assms
  have "distinct (map prioridade (backlog d))" by blast
  then have "distinct (map prioridade (candidates d))"
    unfolding candidates_def by (rule distinct_map_filter)
  with sorted_candidates [of d] show ?thesis by (simp add: strict_sorted_iff)
qed

lemma set_candidates:
  "set (candidates d) =
     {t \<in> set (trabalhos d). \<not> concluido t \<and> t_id t \<notin> trabalho_id ` set (pagamentos_semanais d)}"
  by (auto simp: candidates_def backlog_def)

lemma fill_rows_not_slotted:
  assumes "s \<in> set (fill_rows g d)"
  shows "trabalho_id s \<notin> trabalho_id ` set (pagamentos_semanais d)"
proof -
  from assms have "trabalho_id s \<in> set (map trabalho_id (fill_rows g d))" by simp
  then have "trabalho_id s \<in> t_id ` set (take (length (fill_rows g d)) (candidates d))"
    by (simp add: fill_rows_trabalho_id)
  then obtain t where "t \<in> set (candidates d)" "trabalho_id s = t_id t"
    by (auto dest: in_set_takeD)
  then show ?thesis by (simp add: set_candidates)
qed

lemma length_empty_positions:
  assumes d: "distinct (map posicao rows)"
    and r: "\<forall>s \<in> set rows. 0 \<le> posicao s \<and> posicao s < 10"
    and rows: "rows = pagamentos_semanais d"
  shows "length (empty_positions d) + length rows = 10"
proof -
  let ?all = "map int [0..<10]"
  let ?P = "\<lambda>p. p \<in> posicao ` set rows"
  have "length (filter ?P ?all) + length (filter (\<lambda>p. \<not> ?P p) ?all) = length ?all"
    by (rule sum_length_filter_compl)
  moreover have "length (filter ?P ?all) = length rows"
  proof -
    have dall: "distinct ?all" by (simp add: distinct_map inj_on_def)
    have "set (filter ?P ?all) = posicao ` set rows"
    proof
      show "set (filter ?P ?all) \<subseteq> posicao ` set rows" by auto
      show "posicao ` set rows \<subseteq> set (filter ?P ?all)"
      proof
        fix p assume p: "p \<in> posicao ` set rows"
        with r have "0 \<le> p" "p < 10" by auto
        then have "p = int (nat p)" "nat p < 10" by auto
        then have "p \<in> set ?all" by (metis atLeast0LessThan imageI lessThan_iff set_map set_upt)
        with p show "p \<in> set (filter ?P ?all)" by simp
      qed
    qed
    then have "card (set (filter ?P ?all)) = card (set (map posicao rows))" by simp
    with dall d show ?thesis by (simp add: distinct_card del: set_filter set_map)
  qed
  ultimately show ?thesis by (simp add: empty_positions_def rows)
qed

text \<open>
  Claim C7, against the procedure as the spec describes it. After a successful fill
  the stored slots are the old ones followed by the new ones; work items and history
  are untouched. The new slots are bound, in order, to the first candidates: the
  pending work items not yet bound to a slot, in ascending order of rank (strictly
  ascending when the pending items have distinct ranks). There are as many new slots
  as there are empty positions or candidates, whichever is fewer, each
  with the remaining balance \<open>total - paid\<close> of its work item as amount, on the
  empty positions from the lowest upwards; none is bound to a work item that already
  had a slot. When the old slots occupy distinct positions of the board, the board
  then holds ten slots or all of the old slots and the candidates.
\<close>

theorem fillEmptySlots_fills:
  assumes "available w"
  shows "let d = db w; rows = pagamentos_semanais d; d' = db (fillEmptySlots g w);
             new = drop (length rows) (pagamentos_semanais d')
         in pagamentos_semanais d' = rows @ new \<and>
            trabalhos d' = trabalhos d \<and>
            historico_pagamentos d' = historico_pagamentos d \<and>
            length new = min (length (empty_positions d)) (length (candidates d)) \<and>
            map trabalho_id new = map t_id (take (length new) (candidates d)) \<and>
            map valor new =
              map (\<lambda>t. valor_total t - valor_pago t) (take (length new) (candidates d)) \<and>
            map posicao new = take (length new) (empty_positions d) \<and>
            sorted (map prioridade (candidates d)) \<and>
            (distinct (map prioridade (filter (\<lambda>t. \<not> concluido t) (trabalhos d))) \<longrightarrow>
               sorted_wrt (<) (map prioridade (candidates d))) \<and>
            set (candidates d) =
              {t \<in> set (trabalhos d). \<not> concluido t \<and> t_id t \<notin> trabalho_id ` set rows} \<and>
            (\<forall>s \<in> set new. trabalho_id s \<notin> trabalho_id ` set rows) \<and>
            (distinct (map posicao rows) \<and> (\<forall>s \<in> set rows. 0 \<le> posicao s \<and> posicao s < 10) \<longrightarrow>
               length (pagamentos_semanais d') = min 10 (length rows + length (candidates d)))"
proof -
  let ?d = "db w" and ?d' = "db (fillEmptySlots g w)"
  let ?rows = "pagamentos_semanais ?d"
  have d': "?d' = ?d\<lparr>pagamentos_semanais := ?rows @ fill_rows g ?d\<rparr>"
    using assms by (simp add: fillEmptySlots_def preencher_slots_pagamento_def)
  have new: "drop (length ?rows) (pagamentos_semanais ?d') = fill_rows g ?d"
    by (simp add: d')
  have cap: "distinct (map posicao ?rows) \<and> (\<forall>s \<in> set ?rows. 0 \<le> posicao s \<and> posicao s < 10) \<longrightarrow>
      length (pagamentos_semanais ?d') = min 10 (length ?rows + length (candidates ?d))"
  proof
    assume "distinct (map posicao ?rows) \<and> (\<forall>s \<in> set ?rows. 0 \<le> posicao s \<and> posicao s < 10)"
    then have "length (empty_positions ?d) + length ?rows = 10"
      by (intro length_empty_positions) simp_all
    then show "length (pagamentos_semanais ?d') = min 10 (length ?rows + length (candidates ?d))"
      by (simp add: d' length_fill_rows)
  qed
  have ns: "\<forall>s \<in> set (fill_rows g ?d). trabalho_id s \<notin> trabalho_id ` set ?rows"
    using fill_rows_not_slotted by blast
  show ?thesis
    unfolding Let_def new
  proof (intro conjI)
    show "pagamentos_semanais ?d' = ?rows @ fill_rows g ?d" by (simp add: d')
    show "trabalhos ?d' = trabalhos ?d" by (simp add: d')
    show "historico_pagamentos ?d' = historico_pagamentos ?d" by (simp add: d')
    show "length (fill_rows g ?d) = min (length (empty_positions ?d)) (length (candidates ?d))"
      by (rule length_fill_rows)
    show "map trabalho_id (fill_rows g ?d) =
        map t_id (take (length (fill_rows g ?d)) (candidates ?d))"
      by (rule fill_rows_trabalho_id)
    show "map valor (fill_rows g ?d) =
        map (\<lambda>t. valor_total t - valor_pago t) (take (length (fill_rows g ?d)) (candidates ?d))"
      by (rule fill_rows_valor)
    show "map posicao (fill_rows g ?d) = take (length (fill_rows g ?d)) (empty_positions ?d)"
      by (rule fill_rows_posicao)
    show "sorted (map prioridade (candidates ?d))" by (rule sorted_candidates)
    show "distinct (map prioridade (filter (\<lambda>t. \<not> concluido t) (trabalhos ?d))) \<longrightarrow>
        sorted_wrt (<) (map prioridade (candidates ?d))"
      by (simp add: strict_candidates)
    show "set (candidates ?d) =
        {t \<in> set (trabalhos ?d). \<not> concluido t \<and> t_id t \<notin> trabalho_id ` set ?rows}"
      by (rule set_candidates)
    show "\<forall>s \<in> set (fill_rows g ?d). trabalho_id s \<notin> trabalho_id ` set ?rows" by (rule ns)
    show "distinct (map posicao ?rows) \<and> (\<forall>s \<in> set ?rows. 0 \<le> posicao s \<and> posicao s < 10) \<longrightarrow>
      length (pagamentos_semanais ?d') = min 10 (length ?rows + length (candidates ?d))"
      by (rule cap)
  qed
qed

theorem fillEmptySlots_fills_witness:
  "available ex_fill \<and>
   map trabalho_id (pagamentos_semanais (db (fillEmptySlots ex_gen ex_fill))) =
     [''c'', ''l'', ''k'', ''j'', ''i'', ''h'', ''g'', ''f'', ''e'', ''d''] \<and>
   map posicao (pagamentos_semanais (db (fillEmptySlots ex_gen ex_fill))) =
     [2, 0, 1, 3, 4, 5, 6, 7, 8, 9] \<and>
   map valor (pagamentos_semanais (db (fillEmptySlots ex_gen ex_fill))) =
     [7500, 7500, 7500, 7500, 7500, 7500, 7500, 7500, 7500, 7500] \<and>
   length (drop (length (pagamentos_semanais (db ex_fill)))
             (pagamentos_semanais (db (fillEmptySlots ex_gen ex_fill)))) =
     min (length (empty_positions (db ex_fill))) (length (candidates (db ex_fill)))"
proof -
  have a: "available ex_fill" by code_simp
  have b: "map trabalho_id (pagamentos_semanais (db (fillEmptySlots ex_gen ex_fill))) =
     [''c'', ''l'', ''k'', ''j'', ''i'', ''h'', ''g'', ''f'', ''e'', ''d'']" by code_simp
  have c: "map posicao (pagamentos_semanais (db (fillEmptySlots ex_gen ex_fill))) =
     [2, 0, 1, 3, 4, 5, 6, 7, 8, 9]" by code_simp
  have d: "map valor (pagamentos_semanais (db (fillEmptySlots ex_gen ex_fill))) =
     [7500, 7500, 7500, 7500, 7500, 7500, 7500, 7500, 7500, 7500]" by code_simp
  from fillEmptySlots_fills [OF a, of ex_gen]
  have "length (drop (length (pagamentos_semanais (db ex_fill)))
             (pagamentos_semanais (db (fillEmptySlots ex_gen ex_fill)))) =
     min (length (empty_positions (db ex_fill))) (length (candidates (db ex_fill)))"
    unfolding Let_def by blast
  with a b c d show ?thesis by blast
qed

section \<open>Capacity of the board\<close>

lemma set_filled: "set (filled b) = {s. Some s \<in> set b}"
  by (induction b) (auto simp: filled_def split: option.splits)

lemma length_filled_le: "length (filled b) \<le> length b"
  by (induction b) (auto simp: filled_def split: option.splits)

lemma filled_Cons: "filled (x # b) = (case x of None \<Rightarrow> [] | Some s \<Rightarrow> [s]) @ filled b"
  by (simp add: filled_def)

lemma distinct_filled:
  "(\<forall>i<length b. \<forall>s. b ! i = Some s \<longrightarrow> posicao s = int (n + i)) \<Longrightarrow>
   distinct (map posicao (filled b)) \<and> (\<forall>s \<in> set (filled b). int n \<le> posicao s)"
proof (induction b arbitrary: n)
  case Nil
  then show ?case by (simp add: filled_def)
next
  case (Cons x b)
  have "\<forall>i<length b. \<forall>s. b ! i = Some s \<longrightarrow> posicao s = int (Suc n + i)"
  proof (intro allI impI)
    fix i s assume "i < length b" "b ! i = Some s"
    with Cons.prems [rule_format, of "Suc i" s] show "posicao s = int (Suc n + i)" by simp
  qed
  from Cons.IH [OF this]
  have d: "distinct (map posicao (filled b))" and g: "\<forall>s \<in> set (filled b). int (Suc n) \<le> posicao s"
    by blast+
  show ?case
  proof (cases x)
    case None
    with d g show ?thesis by (auto simp: filled_Cons)
  next
    case (Some s)
    with Cons.prems [rule_format, of 0 s] have "posicao s = int n" by simp
    with Some d g show ?thesis by (auto simp: filled_Cons)
  qed
qed

lemma build_board_index:
  assumes "i < 10" "build_board data ! i = Some s"
  shows "posicao s = int i"
proof -
  let ?f = "filter (\<lambda>r. posicao r = int i) data"
  from assms have ne: "?f \<noteq> []" and s: "s = last ?f"
    by (auto simp: build_board_nth split: if_splits)
  from ne have "last ?f \<in> set ?f" by (rule last_in_set)
  with s show ?thesis by simp
qed

lemma capacity_build_board: "capacity_ok (build_board data)"
proof -
  have "\<forall>i<length (build_board data). \<forall>s. build_board data ! i = Some s \<longrightarrow>
          posicao s = int (0 + i)"
    by (auto dest: build_board_index)
  from distinct_filled [OF this] have "distinct (map posicao (filled (build_board data)))"
    by blast
  moreover have "length (filled (build_board data)) \<le> 10"
    using length_filled_le [of "build_board data"] by simp
  moreover have "\<forall>s \<in> set (filled (build_board data)). 0 \<le> posicao s \<and> posicao s < 10"
    by (auto simp: set_filled dest: build_board_Some)
  ultimately show ?thesis by (simp add: capacity_ok_def)
qed

lemma has_id_simps [simp]: "has_id k None = False" "has_id k (Some x) = (ps_id x = k)"
  by (simp_all add: has_id_def)

lemma rows_ok_DragSlot:
  assumes "rows_ok (pagamentos_semanais (db w))"
  shows "rows_ok (pagamentos_semanais (db (Dashboard_handleDragEnd a ov w)))"
  using assms by (simp add: db_DragSlot)

lemma rows_ok_filter: "rows_ok rows \<Longrightarrow> rows_ok (filter P rows)"
  by (auto simp: rows_ok_def distinct_map_filter)

lemma rows_ok_Nil [simp]: "rows_ok []"
  by (simp add: rows_ok_def)

lemma pagamentos_approve_slot [simp]:
  "pagamentos_semanais (db (approve_slot s w)) = pagamentos_semanais (db w)"
  by (auto simp: approve_slot_def select_trabalho_def insert_historico_def update_trabalho_def
       Let_def split: option.splits if_splits)

lemma slots_approve_slot [simp]: "slots (approve_slot s w) = slots w"
  by (auto simp: approve_slot_def select_trabalho_def insert_historico_def update_trabalho_def
       Let_def tick_def split: option.splits if_splits)

lemma pagamentos_fold_approve_slot [simp]:
  "pagamentos_semanais (db (fold approve_slot ss w)) = pagamentos_semanais (db w)"
  by (induction ss arbitrary: w) simp_all

lemma slots_fold_approve_slot [simp]: "slots (fold approve_slot ss w) = slots w"
  by (induction ss arbitrary: w) simp_all

lemma settle_rows_pagamentos:
  "settle_rows ss d = Some d' \<Longrightarrow> pagamentos_semanais d' = pagamentos_semanais d"
  by (induction ss arbitrary: d) (auto split: option.splits)

lemma slots_loadSlots: "slots (loadSlots w) = slots w \<or> (\<exists>data. slots (loadSlots w) = build_board data)"
  by (auto simp: loadSlots_def select_pagamentos_def tick_def notify_def)

lemma capacity_loadSlots: "capacity_ok (slots w) \<Longrightarrow> capacity_ok (slots (loadSlots w))"
  using slots_loadSlots [of w] by (auto simp: capacity_build_board)

lemma filled_filter: "filled b = map the (filter (\<lambda>s. s \<noteq> None) b)"
  by (induction b) (auto simp: filled_Cons filled_def)

lemma capacity_arrayMove:
  assumes "capacity_ok S" "i < length S"
  shows "capacity_ok (arrayMove S i j)"
proof -
  let ?R = "arrayMove S i j"
  have m: "mset (filled ?R) = mset (filled S)"
    by (simp add: filled_filter mset_arrayMove [OF assms(2)])
  then have "mset (map posicao (filled ?R)) = mset (map posicao (filled S))" by simp
  from mset_eq_imp_distinct_iff [OF this] assms(1)
  have "distinct (map posicao (filled ?R))" by (simp add: capacity_ok_def)
  moreover from m have "set (filled ?R) = set (filled S)" by (rule mset_eq_setD)
  moreover from m have "length (filled ?R) = length (filled S)" by (rule mset_eq_length)
  ultimately show ?thesis using assms by (simp add: capacity_ok_def)
qed

lemma slots_tick [simp]: "slots (tick w) = slots w"
  by (simp add: tick_def)

lemma slots_notify [simp]: "slots (notify t w) = slots w"
  by (simp add: notify_def)

lemma rows_ok_handleRemove:
  "rows_ok (pagamentos_semanais (db w)) \<Longrightarrow> rows_ok (pagamentos_semanais (db (handleRemove k w)))"
  by (auto simp: handleRemove_def delete_pagamento_def rows_ok_filter)

lemma capacity_handleRemove:
  "capacity_ok (slots w) \<Longrightarrow> capacity_ok (slots (handleRemove k w))"
  by (auto simp: handleRemove_def delete_pagamento_def capacity_loadSlots)

lemma rows_ok_handlePayManually:
  "rows_ok (pagamentos_semanais (db w)) \<Longrightarrow>
   rows_ok (pagamentos_semanais (db (handlePayManually c s w)))"
  by (auto simp: handlePayManually_def select_trabalho_def insert_historico_def
       atualizar_valor_pago_def Let_def rows_ok_handleRemove split: option.splits if_splits)

lemma capacity_handlePayManually:
  "capacity_ok (slots w) \<Longrightarrow> capacity_ok (slots (handlePayManually c s w))"
  by (auto simp: handlePayManually_def select_trabalho_def insert_historico_def
       atualizar_valor_pago_def Let_def capacity_handleRemove split: option.splits if_splits)

lemma rows_ok_handleApprove:
  "rows_ok (pagamentos_semanais (db w)) \<Longrightarrow> rows_ok (pagamentos_semanais (db (handleApprove w)))"
  using db_handleApprove [of w] by auto

lemma capacity_handleApprove:
  "capacity_ok (slots w) \<Longrightarrow> capacity_ok (slots (handleApprove w))"
  by (auto simp: handleApprove_def aprovar_pagamentos_semanais_def Let_def capacity_loadSlots
      split: option.splits if_splits)

lemma rows_ok_handleApprove2:
  "rows_ok (pagamentos_semanais (db w)) \<Longrightarrow> rows_ok (pagamentos_semanais (db (handleApprove2 w)))"
  by (auto simp: handleApprove2_def delete_all_pagamentos_def Let_def rows_ok_filter)

lemma capacity_handleApprove2:
  "capacity_ok (slots w) \<Longrightarrow> capacity_ok (slots (handleApprove2 w))"
  by (auto simp: handleApprove2_def delete_all_pagamentos_def Let_def capacity_loadSlots)

lemma rows_ok_fill:
  assumes "rows_ok (pagamentos_semanais d)"
  shows "rows_ok (pagamentos_semanais d @ fill_rows g d)"
proof -
  let ?rows = "pagamentos_semanais d" and ?E = "empty_positions d"
  let ?new = "take (length (fill_rows g d)) ?E"
  have dE: "distinct ?E" by (simp add: empty_positions_def distinct_map inj_on_def)
  have sub: "set ?new \<subseteq> set ?E" by (rule set_take_subset)
  have E: "\<forall>p \<in> set ?E. 0 \<le> p \<and> p < 10 \<and> p \<notin> posicao ` set ?rows"
    by (auto simp: empty_positions_def)
  have "distinct (map posicao ?rows @ ?new)"
    using assms dE sub E by (auto simp: rows_ok_def)
  moreover have "\<forall>p \<in> set (map posicao ?rows @ ?new). 0 \<le> p \<and> p < 10"
    using assms sub E by (auto simp: rows_ok_def)
  ultimately show ?thesis
    by (simp add: rows_ok_def fill_rows_posicao [symmetric] ball_Un image_Un del: set_map)
      (metis imageI image_set)
qed

lemma rows_ok_fillEmptySlots:
  "rows_ok (pagamentos_semanais (db w)) \<Longrightarrow>
   rows_ok (pagamentos_semanais (db (fillEmptySlots g w)))"
  by (auto simp: fillEmptySlots_def preencher_slots_pagamento_def rows_ok_fill)

lemma capacity_fillEmptySlots:
  "capacity_ok (slots w) \<Longrightarrow> capacity_ok (slots (fillEmptySlots g w))"
  by (auto simp: fillEmptySlots_def preencher_slots_pagamento_def capacity_loadSlots)

lemma pagamentos_DragTrabalho [simp]:
  "pagamentos_semanais (db (Trabalhos_handleDragEnd a ov w)) = pagamentos_semanais (db w)"
  by (simp add: db_DragTrabalho)

lemma slots_loadData [simp]: "slots (loadData w) = slots w"
  by (auto simp: loadData_def select_pessoas_def select_fila_def tick_def notify_def
      split: option.splits)

lemma slots_DragTrabalho [simp]: "slots (Trabalhos_handleDragEnd a ov w) = slots w"
  by (auto simp: Trabalhos_handleDragEnd_def upsert_trabalhos_def Let_def tick_def notify_def
      split: option.splits)

lemma capacity_DragSlot:
  "capacity_ok (slots w) \<Longrightarrow> capacity_ok (slots (Dashboard_handleDragEnd a ov w))"
  by (auto simp: Dashboard_handleDragEnd_def upsert_pagamentos_def Let_def capacity_loadSlots
      capacity_arrayMove dest: findIndex_Some split: option.splits)

text \<open>
  Claim C6. Whatever rows are stored, the board that \<open>loadSlots\<close> returns, before
  and after any call of a handler, has ten entries, at most ten of them occupied, every
  occupied one with a position within \<open>0..9\<close> and no two with the same position. Every
  call of a handler, slot reordering included, keeps this property of the board on the
  screen; and it keeps the stored rows on distinct positions within \<open>0..9\<close>, when
  before the call the stored rows have distinct keys and the board on the screen shows
  the stored board.
\<close>

theorem board_capacity:
  "(available w \<longrightarrow> capacity_ok (slots (loadSlots w))) \<and>
   (available (handle e w) \<longrightarrow> capacity_ok (slots (loadSlots (handle e w)))) \<and>
   (capacity_ok (slots w) \<longrightarrow> capacity_ok (slots (handle e w))) \<and>
   (rows_ok (pagamentos_semanais (db w)) \<and>
    distinct (map ps_id (pagamentos_semanais (db w))) \<and> in_sync w \<longrightarrow>
      rows_ok (pagamentos_semanais (db (handle e w))))"
proof -
  have a: "capacity_ok (slots (loadSlots v))" if "available v" for v
    using that by (simp add: loadSlots_slots capacity_build_board)
  have b: "capacity_ok (slots (handle e w))" if "capacity_ok (slots w)"
    using that
    by (cases e)
       (simp_all add: capacity_loadSlots capacity_fillEmptySlots capacity_DragSlot
          capacity_handleRemove capacity_handlePayManually capacity_handleApprove
          capacity_handleApprove2)
  have c: "rows_ok (pagamentos_semanais (db (handle e w)))"
    if "rows_ok (pagamentos_semanais (db w))"
      and "distinct (map ps_id (pagamentos_semanais (db w)))" and "in_sync w"
    using that
    by (cases e)
       (simp_all add: rows_ok_fillEmptySlots rows_ok_DragSlot rows_ok_handleRemove
          rows_ok_handlePayManually rows_ok_handleApprove rows_ok_handleApprove2)
  from a b c show ?thesis by blast
qed

theorem board_capacity_witness:
  "rows_ok (pagamentos_semanais (db ex_two)) \<and>
   distinct (map ps_id (pagamentos_semanais (db ex_two))) \<and>
   in_sync ex_two \<and> capacity_ok (slots ex_two) \<and> available ex_two \<and>
   available (handle (DragSlot ''s2'' (Some ''s1'')) ex_two) \<and>
   capacity_ok (slots (loadSlots ex_two)) \<and>
   capacity_ok (slots (loadSlots (handle (DragSlot ''s2'' (Some ''s1'')) ex_two))) \<and>
   capacity_ok (slots (handle (DragSlot ''s2'' (Some ''s1'')) ex_two)) \<and>
   rows_ok (pagamentos_semanais (db (handle (DragSlot ''s2'' (Some ''s1'')) ex_two))) \<and>
   map ps_id (pagamentos_semanais (db (handle (DragSlot ''s2'' (Some ''s1'')) ex_two))) =
     [''s1'', ''s2''] \<and>
   map posicao (pagamentos_semanais (db (handle (DragSlot ''s2'' (Some ''s1'')) ex_two))) =
     [0, 1] \<and>
   map (map_option ps_id) (slots (handle (DragSlot ''s2'' (Some ''s1'')) ex_two)) =
     [Some ''s1'', Some ''s2'', None, None, None, None, None, None, None, None]"
proof -
  have a: "rows_ok (pagamentos_semanais (db ex_two))" by code_simp
  have b: "distinct (map ps_id (pagamentos_semanais (db ex_two)))" by code_simp
  have c: "in_sync ex_two" by code_simp
  have d: "capacity_ok (slots ex_two)" by code_simp
  have e: "available ex_two" by code_simp
  have e': "available (handle (DragSlot ''s2'' (Some ''s1'')) ex_two)" by code_simp
  have f: "map ps_id (pagamentos_semanais (db (handle (DragSlot ''s2'' (Some ''s1'')) ex_two))) =
     [''s1'', ''s2'']" by code_simp
  have g: "map posicao (pagamentos_semanais (db (handle (DragSlot ''s2'' (Some ''s1'')) ex_two))) =
     [0, 1]" by code_simp
  have h: "map (map_option ps_id) (slots (handle (DragSlot ''s2'' (Some ''s1'')) ex_two)) =
     [Some ''s1'', Some ''s2'', None, None, None, None, None, None, None, None]" by code_simp
  from board_capacity [of ex_two "DragSlot ''s2'' (Some ''s1'')"] a b c d e e'
  have "capacity_ok (slots (loadSlots ex_two)) \<and>
   capacity_ok (slots (loadSlots (handle (DragSlot ''s2'' (Some ''s1'')) ex_two))) \<and>
   capacity_ok (slots (handle (DragSlot ''s2'' (Some ''s1'')) ex_two)) \<and>
   rows_ok (pagamentos_semanais (db (handle (DragSlot ''s2'' (Some ''s1'')) ex_two)))"
    by blast
  with a b c d e e' f g h show ?thesis by blast
qed

end
